theory Spec2Isabelle
  imports Complex_Main "HOL-Library.Sublist"
begin

section \<open>JavaScript strings\<close>

text \<open>
  A JavaScript string is a sequence of UTF-16 code units; \<open>length\<close>, \<open>indexOf\<close>,
  \<open>substring\<close> and the regular expressions of the source (none has the \<open>u\<close> flag) all
  count and compare code units. A code unit is modelled by its number, a string by the
  list of its code units. \<open>js\<close> turns an Isabelle (ASCII) literal into such a string.
\<close>

type_synonym jschar = nat
type_synonym jsstring = "jschar list"

definition js :: "string \<Rightarrow> jsstring" where
  "js s = map of_char s"

definition isDigit :: "jschar \<Rightarrow> bool" where
  "isDigit c = (48 \<le> c \<and> c \<le> 57)"

definition isUpper :: "jschar \<Rightarrow> bool" where
  "isUpper c = (65 \<le> c \<and> c \<le> 90)"

definition isLower :: "jschar \<Rightarrow> bool" where
  "isLower c = (97 \<le> c \<and> c \<le> 122)"

text \<open>The class \<open>\w\<close>: ASCII letters, digits and the underscore.\<close>

definition isWordChar :: "jschar \<Rightarrow> bool" where
  "isWordChar c = (isDigit c \<or> isUpper c \<or> isLower c \<or> c = 95)"

text \<open>The class \<open>\s\<close>: ECMAScript WhiteSpace and LineTerminator code points.\<close>

definition isLineTerminator :: "jschar \<Rightarrow> bool" where
  "isLineTerminator c = (c = 10 \<or> c = 13 \<or> c = 8232 \<or> c = 8233)"

definition isWhiteSpace :: "jschar \<Rightarrow> bool" where
  "isWhiteSpace c =
     (c = 9 \<or> c = 11 \<or> c = 12 \<or> c = 32 \<or> c = 160 \<or> c = 5760 \<or> (8192 \<le> c \<and> c \<le> 8202) \<or>
      c = 8239 \<or> c = 8287 \<or> c = 12288 \<or> c = 65279 \<or> isLineTerminator c)"

definition toUpperAscii :: "jschar \<Rightarrow> jschar" where
  "toUpperAscii c = (if isLower c then c - 32 else c)"

definition toLowerAscii :: "jschar \<Rightarrow> jschar" where
  "toLowerAscii c = (if isUpper c then c + 32 else c)"

section \<open>Regular expressions\<close>

text \<open>
  The fragment of ECMAScript regular expressions that the source uses, with the
  backtracking semantics of the language: a matcher returns the states it can end in,
  in the order in which backtracking tries them, so the head of the list is the match
  that \<open>exec\<close> reports. Quantifiers are greedy. In the source every quantifier with a
  bound or a star stands on a character class, and every pattern has at most one
  capturing group, so \<open>Rep\<close> takes a class and a state keeps one capture.

  With the \<open>i\<close> flag a character matches a class member when both have the same
  canonical form. Without the \<open>u\<close> flag a character beyond ASCII never canonicalises to
  an ASCII one, and the only characters beyond ASCII in the patterns of the source (two
  dashes and three currency signs) have no case variants, so comparing the ASCII case
  variants of the input character is exact for these patterns.
\<close>

datatype atom = Lit jschar | Range jschar jschar | Digit | Space

datatype regex =
    Eps
  | Class "atom list"
  | Cat regex regex
  | Alt regex regex
  | Opt regex
  | Rep "atom list" nat "nat option"
  | Group regex
  | WordB
  | Bol
  | Eol

fun atom_raw :: "atom \<Rightarrow> jschar \<Rightarrow> bool" where
  "atom_raw (Lit c) x = (x = c)"
| "atom_raw (Range lo hi) x = (lo \<le> x \<and> x \<le> hi)"
| "atom_raw Digit x = isDigit x"
| "atom_raw Space x = isWhiteSpace x"

definition atom_match :: "bool \<Rightarrow> atom \<Rightarrow> jschar \<Rightarrow> bool" where
  "atom_match ic a x =
     (atom_raw a x \<or> (ic \<and> (atom_raw a (toUpperAscii x) \<or> atom_raw a (toLowerAscii x))))"

definition class_match :: "bool \<Rightarrow> atom list \<Rightarrow> jschar \<Rightarrow> bool" where
  "class_match ic as x = list_ex (\<lambda>a. atom_match ic a x) as"

text \<open>
  A matcher state: the capture of group 1 (\<open>None\<close> is JavaScript's \<open>undefined\<close>), the
  character before the current position (\<open>None\<close> at the start of the input) and the
  input from the current position on.
\<close>

type_synonym mstate = "jsstring option \<times> jschar option \<times> jsstring"

definition isWordOpt :: "jschar option \<Rightarrow> bool" where
  "isWordOpt p = (case p of None \<Rightarrow> False | Some c \<Rightarrow> isWordChar c)"

definition isTermOpt :: "jschar option \<Rightarrow> bool" where
  "isTermOpt p = (case p of None \<Rightarrow> False | Some c \<Rightarrow> isLineTerminator c)"

definition first_char :: "jsstring \<Rightarrow> jschar option" where
  "first_char cs = (case cs of [] \<Rightarrow> None | c # _ \<Rightarrow> Some c)"

definition last_before :: "jschar option \<Rightarrow> jsstring \<Rightarrow> nat \<Rightarrow> jschar option" where
  "last_before p cs k = (if k = 0 then p else Some (cs ! (k - 1)))"

definition rep_states :: "bool \<Rightarrow> atom list \<Rightarrow> nat \<Rightarrow> nat option \<Rightarrow> mstate \<Rightarrow> mstate list" where
  "rep_states ic as lo hi s =
     (case s of (cap, p, cs) \<Rightarrow>
        let window = (case hi of None \<Rightarrow> cs | Some h \<Rightarrow> take h cs);
            n = length (takeWhile (class_match ic as) window)
        in map (\<lambda>k. (cap, last_before p cs k, drop k cs)) (rev [lo..<Suc n]))"

fun rmatch :: "bool \<Rightarrow> bool \<Rightarrow> regex \<Rightarrow> mstate \<Rightarrow> mstate list" where
  "rmatch ic ml Eps s = [s]"
| "rmatch ic ml (Class as) (cap, p, cs) =
     (case cs of
        [] \<Rightarrow> []
      | c # cs' \<Rightarrow> if class_match ic as c then [(cap, Some c, cs')] else [])"
| "rmatch ic ml (Cat a b) s = concat (map (rmatch ic ml b) (rmatch ic ml a s))"
| "rmatch ic ml (Alt a b) s = rmatch ic ml a s @ rmatch ic ml b s"
| "rmatch ic ml (Opt a) s = rmatch ic ml a s @ [s]"
| "rmatch ic ml (Rep as lo hi) s = rep_states ic as lo hi s"
| "rmatch ic ml (Group a) (cap, p, cs) =
     map (\<lambda>(cap', p', cs'). (Some (take (length cs - length cs') cs), p', cs'))
       (rmatch ic ml a (cap, p, cs))"
| "rmatch ic ml WordB (cap, p, cs) =
     (if isWordOpt p \<noteq> isWordOpt (first_char cs) then [(cap, p, cs)] else [])"
| "rmatch ic ml Bol (cap, p, cs) =
     (if p = None \<or> (ml \<and> isTermOpt p) then [(cap, p, cs)] else [])"
| "rmatch ic ml Eol (cap, p, cs) =
     (if cs = [] \<or> (ml \<and> isTermOpt (first_char cs)) then [(cap, p, cs)] else [])"

text \<open>The result of a successful \<open>exec\<close>: where the match starts, where it ends, and group 1.\<close>

record rmatch_result =
  index :: nat
  endIndex :: nat
  group1 :: "jsstring option"

text \<open>The search of \<open>exec\<close>: the leftmost position, from the current one, where the pattern matches.\<close>

fun search :: "bool \<Rightarrow> bool \<Rightarrow> regex \<Rightarrow> nat \<Rightarrow> jschar option \<Rightarrow> jsstring \<Rightarrow> rmatch_result option" where
  "search ic ml r i p [] =
     (case rmatch ic ml r (None, p, []) of
        [] \<Rightarrow> None
      | (cap, p', cs') # _ \<Rightarrow> Some \<lparr>index = i, endIndex = i, group1 = cap\<rparr>)"
| "search ic ml r i p (c # cs) =
     (case rmatch ic ml r (None, p, c # cs) of
        [] \<Rightarrow> search ic ml r (Suc i) (Some c) cs
      | (cap, p', cs') # _ \<Rightarrow>
          Some \<lparr>index = i, endIndex = i + (Suc (length cs) - length cs'), group1 = cap\<rparr>)"

text \<open>A regular expression object: the pattern and its flags.\<close>

record jsregex =
  pattern :: regex
  ignoreCase :: bool
  global :: bool
  multiline :: bool

text \<open>
  \<open>RegExp.prototype.exec\<close>. The \<open>lastIndex\<close> of the object is its only mutable state: it
  is passed in and the new value is returned. A global pattern starts at \<open>lastIndex\<close>
  and stores the end of the match there, or \<open>0\<close> when nothing matches; a pattern without
  the flag starts at \<open>0\<close> and leaves \<open>lastIndex\<close> alone.
\<close>

definition exec :: "jsregex \<Rightarrow> jsstring \<Rightarrow> nat \<Rightarrow> rmatch_result option \<times> nat" where
  "exec re s lastIndex =
     (if global re then
        (if length s < lastIndex then (None, 0)
         else
           (case search (ignoreCase re) (multiline re) (pattern re) lastIndex
                   (last_before None s lastIndex) (drop lastIndex s) of
              None \<Rightarrow> (None, 0)
            | Some m \<Rightarrow> (Some m, endIndex m)))
      else (search (ignoreCase re) (multiline re) (pattern re) 0 None s, lastIndex))"

text \<open>\<open>RegExp.prototype.test\<close> on a pattern without the global flag.\<close>

definition test :: "jsregex \<Rightarrow> jsstring \<Rightarrow> bool" where
  "test re s = (fst (exec re s 0) \<noteq> None)"

subsection \<open>Writing patterns\<close>

definition chr :: "char \<Rightarrow> regex" where
  "chr c = Class [Lit (of_char c)]"

definition str :: "string \<Rightarrow> regex" where
  "str s = foldr (\<lambda>c r. Cat (chr c) r) s Eps"

fun cats :: "regex list \<Rightarrow> regex" where
  "cats [] = Eps"
| "cats [r] = r"
| "cats (r # rs) = Cat r (cats rs)"

fun alts :: "regex list \<Rightarrow> regex" where
  "alts [] = Eps"
| "alts [r] = r"
| "alts (r # rs) = Alt r (alts rs)"

definition star :: "atom list \<Rightarrow> regex" where
  "star as = Rep as 0 None"

definition plus :: "atom list \<Rightarrow> regex" where
  "plus as = Rep as 1 None"

definition dashOrSpace :: regex where
  "dashOrSpace = Opt (Class [Lit (of_char CHR ''-''), Lit 32])"

definition upperOrDigit :: "atom list" where
  "upperOrDigit = [Range 65 90, Range 48 57]"

section \<open>The code extractor (codeExtractor.js)\<close>

datatype error = TypeError | NonTermination

text \<open>Truthiness of a value that is a string or \<open>undefined\<close>, and the operator \<open>||\<close> on such values.\<close>

definition truthy :: "jsstring option \<Rightarrow> bool" where
  "truthy v = (case v of None \<Rightarrow> False | Some s \<Rightarrow> s \<noteq> [])"

definition js_or :: "jsstring option \<Rightarrow> jsstring option \<Rightarrow> jsstring option" where
  "js_or a b = (if truthy a then a else b)"

text \<open>\<open>String.prototype.indexOf\<close>: the first offset at which the needle occurs, or \<open>-1\<close>.\<close>

fun indexOf_from :: "nat \<Rightarrow> jsstring \<Rightarrow> jsstring \<Rightarrow> int" where
  "indexOf_from i [] needle = (if needle = [] then int i else -1)"
| "indexOf_from i (c # cs) needle =
     (if take (length needle) (c # cs) = needle then int i else indexOf_from (Suc i) cs needle)"

definition indexOf :: "jsstring \<Rightarrow> jsstring \<Rightarrow> int" where
  "indexOf s needle = indexOf_from 0 s needle"

text \<open>\<open>String.prototype.substring\<close>: both ends are clamped to the string and swapped when out of order.\<close>

definition substring :: "jsstring \<Rightarrow> int \<Rightarrow> int \<Rightarrow> jsstring" where
  "substring s a b =
     (let n = int (length s);
          a' = min (max a 0) n;
          b' = min (max b 0) n;
          lo = min a' b';
          hi = max a' b'
      in take (nat hi - nat lo) (drop (nat lo) s))"

text \<open>
  \<open>parseInt(s, 10)\<close>: leading white space, an optional sign, then the longest run of
  decimal digits; \<open>None\<close> is \<open>NaN\<close>. (The source only passes runs of 4 to 8 digits, whose
  values a double holds exactly.)
\<close>

definition digitsValue :: "jsstring \<Rightarrow> int" where
  "digitsValue ds = foldl (\<lambda>acc d. 10 * acc + (int d - 48)) 0 ds"

definition parseInt10 :: "jsstring \<Rightarrow> int option" where
  "parseInt10 s =
     (let t = dropWhile isWhiteSpace s;
          neg = (first_char t = Some 45);
          u = (if first_char t = Some 45 \<or> first_char t = Some 43 then tl t else t);
          ds = takeWhile isDigit u
      in if ds = [] then None else Some (if neg then - digitsValue ds else digitsValue ds))"

subsection \<open>The patterns\<close>

text \<open>
  \<^verbatim>\<open>/(?:verification|security|confirm(?:ation)?|login|sign[- ]?in|one[- ]?time|auth(?:entication)?|2fa|two[- ]?factor)?\s*(?:code|pin|otp)\s*(?:is|:|[em dash]|[en dash]|-|=)\s*[:\s]*([A-Z0-9]{4,8})/gi\<close>
\<close>

definition explicitPattern1 :: jsregex where
  "explicitPattern1 =
     \<lparr>pattern = cats
        [Opt (alts
           [str ''verification'', str ''security'',
            Cat (str ''confirm'') (Opt (str ''ation'')),
            str ''login'',
            cats [str ''sign'', dashOrSpace, str ''in''],
            cats [str ''one'', dashOrSpace, str ''time''],
            Cat (str ''auth'') (Opt (str ''entication'')),
            str ''2fa'',
            cats [str ''two'', dashOrSpace, str ''factor'']]),
         star [Space],
         alts [str ''code'', str ''pin'', str ''otp''],
         star [Space],
         alts [str ''is'', chr CHR '':'', Class [Lit 8212], Class [Lit 8211], chr CHR ''-'', chr CHR ''=''],
         star [Space],
         star [Lit (of_char CHR '':''), Space],
         Group (Rep upperOrDigit 4 (Some 8))],
      ignoreCase = True, global = True, multiline = False\<rparr>"

text \<open>\<^verbatim>\<open>/(?:enter|use|input|type|submit)\s+(?:the\s+)?(?:code\s+)?([A-Z0-9]{4,8})/gi\<close>\<close>

definition explicitPattern2 :: jsregex where
  "explicitPattern2 =
     \<lparr>pattern = cats
        [alts [str ''enter'', str ''use'', str ''input'', str ''type'', str ''submit''],
         plus [Space],
         Opt (Cat (str ''the'') (plus [Space])),
         Opt (Cat (str ''code'') (plus [Space])),
         Group (Rep upperOrDigit 4 (Some 8))],
      ignoreCase = True, global = True, multiline = False\<rparr>"

text \<open>\<^verbatim>\<open>/\b([0-9]{4,8})\b\s*(?:is your|is the)/gi\<close>\<close>

definition explicitPattern3 :: jsregex where
  "explicitPattern3 =
     \<lparr>pattern = cats
        [WordB, Group (Rep [Range 48 57] 4 (Some 8)), WordB, star [Space],
         Alt (str ''is your'') (str ''is the'')],
      ignoreCase = True, global = True, multiline = False\<rparr>"

definition explicitPatterns :: "jsregex list" where
  "explicitPatterns = [explicitPattern1, explicitPattern2, explicitPattern3]"

text \<open>\<^verbatim>\<open>/(?:^|\s|>|\n)(\d{4,8})(?:\s|$|<|\n|\.)/gm\<close>\<close>

definition standalonePattern :: jsregex where
  "standalonePattern =
     \<lparr>pattern = cats
        [alts [Bol, Class [Space], chr CHR ''>'', Class [Lit 10]],
         Group (Rep [Digit] 4 (Some 8)),
         alts [Class [Space], Eol, chr CHR ''<'', Class [Lit 10], chr CHR ''.'']],
      ignoreCase = False, global = True, multiline = True\<rparr>"

text \<open>\<^verbatim>\<open>/\b([A-Z0-9]{6,8})\b/g\<close>\<close>

definition alphanumPattern :: jsregex where
  "alphanumPattern =
     \<lparr>pattern = cats [WordB, Group (Rep upperOrDigit 6 (Some 8)), WordB],
      ignoreCase = False, global = True, multiline = False\<rparr>"

text \<open>\<^verbatim>\<open>/code|verify|confirm|otp|pin/i\<close>\<close>

definition codeContextPattern :: jsregex where
  "codeContextPattern =
     \<lparr>pattern = alts [str ''code'', str ''verify'', str ''confirm'', str ''otp'', str ''pin''],
      ignoreCase = True, global = False, multiline = False\<rparr>"

text \<open>\<^verbatim>\<open>/[A-Z]/i\<close> and \<^verbatim>\<open>/\d/\<close>\<close>

definition letterPattern :: jsregex where
  "letterPattern = \<lparr>pattern = Class [Range 65 90], ignoreCase = True, global = False, multiline = False\<rparr>"

definition digitPattern :: jsregex where
  "digitPattern = \<lparr>pattern = Class [Digit], ignoreCase = False, global = False, multiline = False\<rparr>"

text \<open>\<^verbatim>\<open>/\$|[euro]|[pound]|[yen]|USD|EUR/\<close> and \<^verbatim>\<open>/\.\d{2}/\<close>\<close>

definition currencyPattern :: jsregex where
  "currencyPattern =
     \<lparr>pattern = alts [chr CHR ''$'', Class [Lit 8364], Class [Lit 163], Class [Lit 165],
                      str ''USD'', str ''EUR''],
      ignoreCase = False, global = False, multiline = False\<rparr>"

definition decimalsPattern :: jsregex where
  "decimalsPattern =
     \<lparr>pattern = Cat (chr CHR ''.'') (Rep [Digit] 2 (Some 2)),
      ignoreCase = False, global = False, multiline = False\<rparr>"

subsection \<open>isLikelyCode\<close>

text \<open>A comparison with \<open>NaN\<close> (here \<open>None\<close>) is false.\<close>

definition isYearLike :: "jsstring \<Rightarrow> bool" where
  "isYearLike numStr =
     (length numStr = 4 \<and>
      (case parseInt10 numStr of None \<Rightarrow> False | Some num \<Rightarrow> 1900 \<le> num \<and> num \<le> 2099))"

definition isLikelyCode :: "jsstring \<Rightarrow> jsstring \<Rightarrow> bool" where
  "isLikelyCode numStr context =
     (if isYearLike numStr then test codeContextPattern context
      else
        let idx = indexOf context numStr in
        if idx > 0 then
          let before = substring context (max 0 (idx - 5)) idx;
              after = substring context (idx + int (length numStr)) (idx + int (length numStr) + 5)
          in if test currencyPattern before \<or> test decimalsPattern after then False
             else True
        else True)"

subsection \<open>extractVerificationCode\<close>

text \<open>The loop over \<open>explicitPatterns\<close>: each pattern is a fresh object, run from \<open>lastIndex = 0\<close>.\<close>

fun explicitLoop :: "jsregex list \<Rightarrow> jsstring \<Rightarrow> jsstring option" where
  "explicitLoop [] combined = None"
| "explicitLoop (p # ps) combined =
     (case fst (exec p combined 0) of
        None \<Rightarrow> explicitLoop ps combined
      | Some m \<Rightarrow> if truthy (group1 m) then group1 m else explicitLoop ps combined)"

text \<open>
  The loop \<^verbatim>\<open>while ((m = standalonePattern.exec(combined)) !== null)\<close>. Group 1 of
  a match is a string or \<open>undefined\<close>, and \<open>isLikelyCode\<close> reads \<open>numStr.length\<close>, which
  throws a TypeError on \<open>undefined\<close>. A match that leaves \<open>lastIndex\<close> where it was would be
  found again for ever: the model returns \<open>NonTermination\<close> there, and so it is a total
  function.
\<close>

function standaloneLoop :: "jsstring \<Rightarrow> nat \<Rightarrow> jsstring list \<Rightarrow> error + jsstring list" where
  "standaloneLoop combined lastIndex candidates =
     (case exec standalonePattern combined lastIndex of
        (None, _) \<Rightarrow> Inr candidates
      | (Some m, lastIndex') \<Rightarrow>
          (case group1 m of
             None \<Rightarrow> Inl TypeError
           | Some num \<Rightarrow>
               if lastIndex' \<le> lastIndex \<or> length combined < lastIndex' then Inl NonTermination
               else standaloneLoop combined lastIndex'
                      (if isLikelyCode num combined then candidates @ [num] else candidates)))"
  by pat_completeness auto
termination
  by (relation "measure (\<lambda>(combined, lastIndex, candidates). Suc (length combined) - lastIndex)") auto

declare standaloneLoop.simps [simp del]

text \<open>The choice among the candidates: \<^verbatim>\<open>find(6) || find(4) || candidates[0]\<close>.\<close>

definition preferred :: "jsstring list \<Rightarrow> jsstring option" where
  "preferred candidates =
     js_or (find (\<lambda>c. length c = 6) candidates)
       (js_or (find (\<lambda>c. length c = 4) candidates)
          (case candidates of [] \<Rightarrow> None | c # _ \<Rightarrow> Some c))"

text \<open>
  The loop over \<open>alphanumPattern\<close>. A candidate that is \<open>undefined\<close> would be tested as the
  string \<open>"undefined"\<close>.
\<close>

definition toStringV :: "jsstring option \<Rightarrow> jsstring" where
  "toStringV v = (case v of None \<Rightarrow> js ''undefined'' | Some s \<Rightarrow> s)"

function alphanumLoop :: "jsstring \<Rightarrow> nat \<Rightarrow> error + jsstring option" where
  "alphanumLoop combined lastIndex =
     (case exec alphanumPattern combined lastIndex of
        (None, _) \<Rightarrow> Inr None
      | (Some m, lastIndex') \<Rightarrow>
          if test letterPattern (toStringV (group1 m)) \<and> test digitPattern (toStringV (group1 m))
          then Inr (group1 m)
          else if lastIndex' \<le> lastIndex \<or> length combined < lastIndex' then Inl NonTermination
          else alphanumLoop combined lastIndex')"
  by pat_completeness auto
termination
  by (relation "measure (\<lambda>(combined, lastIndex). Suc (length combined) - lastIndex)") auto

declare alphanumLoop.simps [simp del]

definition combine :: "jsstring \<Rightarrow> jsstring \<Rightarrow> jsstring" where
  "combine subject text = subject @ [32] @ text"

definition extractVerificationCode :: "jsstring \<Rightarrow> jsstring \<Rightarrow> error + jsstring option" where
  "extractVerificationCode text subject =
     (let combined = combine subject text in
      case explicitLoop explicitPatterns combined of
        Some v \<Rightarrow> Inr (Some v)
      | None \<Rightarrow>
          (case standaloneLoop combined 0 [] of
             Inl e \<Rightarrow> Inl e
           | Inr candidates \<Rightarrow>
               if length candidates > 0 then Inr (preferred candidates)
               else if test codeContextPattern combined then alphanumLoop combined 0
               else Inr None))"

section \<open>The content script (content/index.js)\<close>

subsection \<open>The page snapshot\<close>

text \<open>
  What the content script reads of an \<open>input\<close> element. \<open>attrs\<close> are its content
  attributes (names in lower case, as HTML stores them); \<open>maxlengthAttr\<close> and \<open>sizeAttr\<close>
  are the \<open>maxlength\<close> and \<open>size\<close> attributes parsed as non-negative integers, \<open>None\<close> when
  absent or invalid; the rectangle is that of \<open>getBoundingClientRect\<close> (a finite double is
  a rational number) and the three style values are those of \<open>getComputedStyle\<close>.
  \<open>parentElement\<close> and \<open>handle\<close> identify DOM nodes.
\<close>

record element =
  handle :: nat
  attrs :: "(string \<times> jsstring) list"
  disabled :: bool
  readOnly :: bool
  elValue :: jsstring
  maxlengthAttr :: "nat option"
  sizeAttr :: "nat option"
  rectWidth :: rat
  rectHeight :: rat
  display :: jsstring
  visibility :: jsstring
  opacity :: jsstring
  parentElement :: "nat option"

text \<open>
  A page: its \<open>input\<close> elements in document order, and \<open>document.body?.innerText\<close>
  (\<open>None\<close> when the document has no body).
\<close>

record page =
  inputs :: "element list"
  innerText :: "jsstring option"

definition attr :: "element \<Rightarrow> string \<Rightarrow> jsstring option" where
  "attr el name = map_of (attrs el) name"

text \<open>
  The DOM properties the script reads, as HTML reflects them from the attributes:
  \<open>maxLength\<close> is \<open>-1\<close> when no valid \<open>maxlength\<close> is declared, \<open>size\<close> is \<open>20\<close> when no
  valid positive \<open>size\<close> is declared, and \<open>type\<close> is the lower-cased \<open>type\<close> attribute when
  that is a known input type and \<open>"text"\<close> otherwise.
\<close>

definition maxLength :: "element \<Rightarrow> int" where
  "maxLength el = (case maxlengthAttr el of None \<Rightarrow> -1 | Some n \<Rightarrow> int n)"

definition size_prop :: "element \<Rightarrow> int" where
  "size_prop el = (case sizeAttr el of None \<Rightarrow> 20 | Some n \<Rightarrow> if n = 0 then 20 else int n)"

definition inputTypes :: "jsstring list" where
  "inputTypes = map js
     [''hidden'', ''text'', ''search'', ''tel'', ''url'', ''email'', ''password'', ''date'',
      ''month'', ''week'', ''time'', ''datetime-local'', ''number'', ''range'', ''color'',
      ''checkbox'', ''radio'', ''file'', ''submit'', ''image'', ''reset'', ''button'']"

definition type_prop :: "element \<Rightarrow> jsstring" where
  "type_prop el =
     (case attr el ''type'' of
        None \<Rightarrow> js ''text''
      | Some v \<Rightarrow> if map toLowerAscii v \<in> set inputTypes then map toLowerAscii v
                  else js ''text'')"

subsection \<open>Selectors\<close>

text \<open>
  The selectors of the script all select \<open>input\<close> elements by one attribute:
  \<^verbatim>\<open>input[a="v"]\<close>, \<^verbatim>\<open>input[a*="v" i]\<close> and \<^verbatim>\<open>input:not([a])\<close>. HTML compares the value of
  the \<open>type\<close> attribute without regard to ASCII case, also without the \<open>i\<close> flag.
\<close>

datatype selector =
    AttrEquals string jsstring
  | AttrContainsI string jsstring
  | NoAttr string

fun containsI :: "jsstring \<Rightarrow> jsstring \<Rightarrow> bool" where
  "containsI [] needle = (needle = [])"
| "containsI (c # cs) needle =
     (map toLowerAscii (take (length needle) (c # cs)) = map toLowerAscii needle \<or>
      containsI cs needle)"

fun matches :: "selector \<Rightarrow> element \<Rightarrow> bool" where
  "matches (AttrEquals a v) el =
     (case attr el a of
        None \<Rightarrow> False
      | Some w \<Rightarrow> if a = ''type'' then map toLowerAscii w = map toLowerAscii v else w = v)"
| "matches (AttrContainsI a v) el =
     (case attr el a of None \<Rightarrow> False | Some w \<Rightarrow> v \<noteq> [] \<and> containsI w v)"
| "matches (NoAttr a) el = (attr el a = None)"

text \<open>\<open>querySelector\<close>: the first element, in document order, that matches.\<close>

definition querySelector :: "page \<Rightarrow> selector \<Rightarrow> element option" where
  "querySelector pg sel = find (matches sel) (inputs pg)"

text \<open>\<open>querySelectorAll\<close> on a selector list: the elements that match one of them, in document order.\<close>

definition querySelectorAll :: "page \<Rightarrow> selector list \<Rightarrow> element list" where
  "querySelectorAll pg sels = filter (\<lambda>el. list_ex (\<lambda>sel. matches sel el) sels) (inputs pg)"

definition CODE_FIELD_SELECTORS :: "selector list" where
  "CODE_FIELD_SELECTORS =
     [AttrEquals ''autocomplete'' (js ''one-time-code''),
      AttrContainsI ''name'' (js ''otp''),
      AttrContainsI ''name'' (js ''code''),
      AttrContainsI ''name'' (js ''verify''),
      AttrContainsI ''name'' (js ''token''),
      AttrContainsI ''name'' (js ''2fa''),
      AttrContainsI ''name'' (js ''mfa''),
      AttrContainsI ''name'' (js ''pin''),
      AttrContainsI ''id'' (js ''otp''),
      AttrContainsI ''id'' (js ''code''),
      AttrContainsI ''id'' (js ''verify''),
      AttrContainsI ''id'' (js ''2fa''),
      AttrContainsI ''id'' (js ''mfa''),
      AttrContainsI ''class'' (js ''otp''),
      AttrContainsI ''class'' (js ''code''),
      AttrContainsI ''class'' (js ''verify''),
      AttrContainsI ''data-testid'' (js ''code''),
      AttrContainsI ''data-testid'' (js ''otp''),
      AttrContainsI ''aria-label'' (js ''code''),
      AttrContainsI ''aria-label'' (js ''otp''),
      AttrContainsI ''aria-label'' (js ''verification''),
      AttrContainsI ''placeholder'' (js ''code''),
      AttrContainsI ''placeholder'' (js ''otp''),
      AttrContainsI ''placeholder'' (js ''verification'')]"

text \<open>\<^verbatim>\<open>'input[type="text"], input[type="number"], input[type="tel"], input:not([type])'\<close>\<close>

definition TEXT_INPUT_SELECTORS :: "selector list" where
  "TEXT_INPUT_SELECTORS =
     [AttrEquals ''type'' (js ''text''), AttrEquals ''type'' (js ''number''),
      AttrEquals ''type'' (js ''tel''), NoAttr ''type'']"

subsection \<open>The context patterns\<close>

definition ci :: "regex \<Rightarrow> jsregex" where
  "ci r = \<lparr>pattern = r, ignoreCase = True, global = False, multiline = False\<rparr>"

definition CONTEXT_PATTERNS :: "jsregex list" where
  "CONTEXT_PATTERNS =
     [ci (cats [str ''enter'', plus [Space], Opt (Cat (str ''the'') (plus [Space])),
                alts [str ''verification'', str ''security'', str ''confirmation'', str ''login'',
                      cats [str ''sign'', dashOrSpace, str ''in'']],
                star [Space], str ''code'']),
      ci (cats [str ''we'', plus [Space], Alt (str ''sent'') (str ''emailed''), plus [Space],
                Opt (Alt (Cat (str ''a'') (plus [Space]))
                         (cats [str ''you'', plus [Space], str ''a'', plus [Space]])),
                str ''code'']),
      ci (cats [str ''check'', plus [Space], str ''your'', plus [Space],
                Alt (str ''email'') (str ''inbox'')]),
      ci (cats [str ''one'', dashOrSpace, str ''time'', plus [Space],
                alts [str ''password'', str ''code'', str ''pin'']]),
      ci (cats [str ''enter'', plus [Space], Opt (Cat (str ''the'') (plus [Space])),
                Opt (cats [Class [Digit], dashOrSpace, str ''digit'', plus [Space]]),
                str ''code'']),
      ci (cats [str ''verification'', plus [Space], str ''code'']),
      ci (cats [str ''confirm'', Opt (str ''ation''), plus [Space], str ''code'']),
      ci (cats [str ''two'', dashOrSpace, str ''factor'']),
      ci (cats [str ''2fa'', plus [Space], str ''code'']),
      ci (cats [str ''authentication'', plus [Space], str ''code''])]"

subsection \<open>Module state\<close>

text \<open>The three module-level variables of the script that detection and autofill share.\<close>

record cstate =
  detectedField :: "element option"
  hasNotifiedBackground :: bool
  splitInputs :: "element list option"

subsection \<open>Detection\<close>

definition isVisibleInput :: "element \<Rightarrow> bool" where
  "isVisibleInput el =
     (if type_prop el = js ''hidden'' \<or> disabled el \<or> readOnly el then False
      else if rectWidth el = 0 \<or> rectHeight el = 0 then False
      else display el \<noteq> js ''none'' \<and> visibility el \<noteq> js ''hidden'' \<and> opacity el \<noteq> js ''0'')"

definition hasSmallWidth :: "element \<Rightarrow> bool" where
  "hasSmallWidth el = (rectWidth el < 300)"

definition pageHasCodeContext :: "page \<Rightarrow> bool" where
  "pageHasCodeContext pg =
     (let text = (case innerText pg of None \<Rightarrow> [] | Some t \<Rightarrow> t)
      in list_ex (\<lambda>pattern. test pattern text) CONTEXT_PATTERNS)"

text \<open>
  The \<open>Map\<close> from parent to its inputs keeps its keys in insertion order: an association
  list, where a new key goes to the end and a known key gets the input appended.
\<close>

fun groupsPush :: "nat option \<Rightarrow> element \<Rightarrow> (nat option \<times> element list) list \<Rightarrow>
    (nat option \<times> element list) list" where
  "groupsPush parent input [] = [(parent, [input])]"
| "groupsPush parent input ((k, els) # groups) =
     (if k = parent then (k, els @ [input]) # groups
      else (k, els) # groupsPush parent input groups)"

definition isSingleChar :: "element \<Rightarrow> bool" where
  "isSingleChar input = (maxLength input = 1 \<or> size_prop input = 1)"

definition groupByParent :: "element list \<Rightarrow> (nat option \<times> element list) list" where
  "groupByParent visible =
     foldl (\<lambda>groups input.
              if isSingleChar input then groupsPush (parentElement input) input groups
              else groups) [] visible"

definition inSplitRange :: "element list \<Rightarrow> bool" where
  "inSplitRange els = (4 \<le> length els \<and> length els \<le> 8)"

definition findSplitCodeInputs :: "page \<Rightarrow> element list option" where
  "findSplitCodeInputs pg =
     (let allInputs = querySelectorAll pg TEXT_INPUT_SELECTORS;
          visible = filter isVisibleInput allInputs;
          groups = groupByParent visible
      in map_option snd (find (\<lambda>(parent, els). inSplitRange els) groups))"

text \<open>Strategy 1: for each selector in turn, look at the element \<open>querySelector\<close> returns.\<close>

fun selectorLoop :: "selector list \<Rightarrow> page \<Rightarrow> element option" where
  "selectorLoop [] pg = None"
| "selectorLoop (selector # rest) pg =
     (case querySelector pg selector of
        None \<Rightarrow> selectorLoop rest pg
      | Some el \<Rightarrow> if isVisibleInput el then Some el else selectorLoop rest pg)"

definition isSmallEmptyInput :: "element \<Rightarrow> bool" where
  "isSmallEmptyInput input =
     (isVisibleInput input \<and> elValue input = [] \<and>
      (maxLength input \<le> 8 \<or> size_prop input \<le> 8 \<or> hasSmallWidth input))"

definition first_elem :: "element list \<Rightarrow> element option" where
  "first_elem els = (case els of [] \<Rightarrow> None | el # _ \<Rightarrow> Some el)"

text \<open>
  \<open>findCodeField\<close> returns the field (\<open>None\<close> is \<open>null\<close>; \<open>splits[0]\<close> of an empty array
  would be \<open>undefined\<close>, \<open>None\<close> as well) and the module state it leaves behind.
\<close>

definition findCodeField :: "page \<Rightarrow> cstate \<Rightarrow> element option \<times> cstate" where
  "findCodeField pg st =
     (case selectorLoop CODE_FIELD_SELECTORS pg of
        Some el \<Rightarrow> (Some el, st)
      | None \<Rightarrow>
          (case findSplitCodeInputs pg of
             Some splits \<Rightarrow> (first_elem splits, st\<lparr>splitInputs := Some splits\<rparr>)
           | None \<Rightarrow>
               if pageHasCodeContext pg then
                 (find isSmallEmptyInput (querySelectorAll pg TEXT_INPUT_SELECTORS), st)
               else (None, st)))"

section \<open>Static properties of patterns\<close>

text \<open>
  \<open>minLen\<close> is a lower bound on the number of characters a match consumes, \<open>setsGroup\<close>
  says that every way through the pattern passes a capturing group, and \<open>goodGroups\<close> that
  no capturing group can capture the empty string.
\<close>

fun minLen :: "regex \<Rightarrow> nat" where
  "minLen Eps = 0"
| "minLen (Class as) = 1"
| "minLen (Cat a b) = minLen a + minLen b"
| "minLen (Alt a b) = min (minLen a) (minLen b)"
| "minLen (Opt a) = 0"
| "minLen (Rep as lo hi) = lo"
| "minLen (Group a) = minLen a"
| "minLen WordB = 0"
| "minLen Bol = 0"
| "minLen Eol = 0"

fun setsGroup :: "regex \<Rightarrow> bool" where
  "setsGroup (Group a) = True"
| "setsGroup (Cat a b) = (setsGroup a \<or> setsGroup b)"
| "setsGroup (Alt a b) = (setsGroup a \<and> setsGroup b)"
| "setsGroup r = False"

fun goodGroups :: "regex \<Rightarrow> bool" where
  "goodGroups (Group a) = (0 < minLen a \<and> goodGroups a)"
| "goodGroups (Cat a b) = (goodGroups a \<and> goodGroups b)"
| "goodGroups (Alt a b) = (goodGroups a \<and> goodGroups b)"
| "goodGroups (Opt a) = goodGroups a"
| "goodGroups r = True"

section \<open>Groups of one-character inputs\<close>

text \<open>
  The inputs that strategy 2 groups, in document order; the group of a parent: those of
  them that have this parent; and the first occurrences of a list, in order (the order
  in which a \<open>Map\<close> lists keys that were inserted in the order of the list).
\<close>

definition singleCharInputs :: "page \<Rightarrow> element list" where
  "singleCharInputs pg =
     filter isSingleChar (filter isVisibleInput (querySelectorAll pg TEXT_INPUT_SELECTORS))"

definition groupOf :: "page \<Rightarrow> nat option \<Rightarrow> element list" where
  "groupOf pg parent = filter (\<lambda>el. parentElement el = parent) (singleCharInputs pg)"

definition firsts :: "'a list \<Rightarrow> 'a list" where
  "firsts xs = rev (remdups (rev xs))"

section \<open>The words of the specification\<close>

text \<open>
  The specification speaks of a text that contains a code-related keyword (code,
  verify, confirm, otp, pin) anywhere. \<open>spec_containsKeyword\<close> says so without a regular
  expression: one of the words is a contiguous part of the text, ASCII case ignored.
  It is compared with the pattern of the source below.
\<close>

definition keywordWords :: "string list" where
  "keywordWords = [''code'', ''verify'', ''confirm'', ''otp'', ''pin'']"

definition spec_containsKeyword :: "jsstring \<Rightarrow> bool" where
  "spec_containsKeyword s = (\<exists>w\<in>set keywordWords. sublist (js w) (map toLowerAscii s))"








section \<open>Example inputs\<close>

text \<open>A visible, empty text input without attributes, 400 by 30 pixels.\<close>

definition plainInput :: element where
  "plainInput =
     \<lparr>handle = 0, attrs = [], disabled = False, readOnly = False, elValue = [],
      maxlengthAttr = None, sizeAttr = None, rectWidth = 400, rectHeight = 30,
      display = js ''inline-block'', visibility = js ''visible'', opacity = js ''1'',
      parentElement = Some 100\<rparr>"

definition initialState :: cstate where
  "initialState = \<lparr>detectedField = None, hasNotifiedBackground = False, splitInputs = None\<rparr>"

text \<open>
  A page with a hidden input named \<open>otp\<close> (\<open>display: none\<close>, no rendered area) before a
  visible one of the same name.
\<close>

definition hiddenOtp :: element where
  "hiddenOtp = plainInput\<lparr>handle := 1, attrs := [(''name'', js ''otp'')], rectWidth := 0,
     rectHeight := 0, display := js ''none''\<rparr>"

definition visibleOtp :: element where
  "visibleOtp = plainInput\<lparr>handle := 2, attrs := [(''name'', js ''otp'')]\<rparr>"

definition hiddenFirstPage :: page where
  "hiddenFirstPage = \<lparr>inputs = [hiddenOtp, visibleOtp], innerText = Some (js ''Sign in'')\<rparr>"

text \<open>
  A page that asks for a code and holds one wide text input that declares neither a
  maximum length nor a size.
\<close>

definition wideInput :: element where
  "wideInput = plainInput\<lparr>handle := 1, attrs := [(''type'', js ''text'')]\<rparr>"

definition widePage :: page where
  "widePage = \<lparr>inputs = [wideInput], innerText = Some (js ''Enter the verification code'')\<rparr>"

text \<open>A page with four visible one-character boxes under one parent.\<close>

definition digitBox :: "nat \<Rightarrow> element" where
  "digitBox n = plainInput\<lparr>handle := n, attrs := [(''type'', js ''text'')],
     maxlengthAttr := Some 1, rectWidth := 40\<rparr>"

definition splitPage :: page where
  "splitPage = \<lparr>inputs = map digitBox [1, 2, 3, 4], innerText = Some (js ''Sign in'')\<rparr>"

text \<open>
  A page with groups of 3, 9, 6 and 4 one-character boxes, under the parents 200 to 203
  in this order.
\<close>

definition boxIn :: "nat \<Rightarrow> nat \<Rightarrow> element" where
  "boxIn parent n = (digitBox n)\<lparr>parentElement := Some parent\<rparr>"

definition groupsPage :: page where
  "groupsPage =
     \<lparr>inputs = map (boxIn 200) [1, 2, 3] @ map (boxIn 201) [4, 5, 6, 7, 8, 9, 10, 11, 12] @
               map (boxIn 202) [13, 14, 15, 16, 17, 18] @ map (boxIn 203) [19, 20, 21, 22],
      innerText = Some (js ''Sign in'')\<rparr>"

section \<open>Evaluation\<close>

lemmas char_defs = isDigit_def isUpper_def isLower_def isWordChar_def isLineTerminator_def
  isWhiteSpace_def toUpperAscii_def toLowerAscii_def atom_match_def class_match_def
  isWordOpt_def isTermOpt_def first_char_def last_before_def rep_states_def

lemmas pattern_defs = explicitPatterns_def explicitPattern1_def explicitPattern2_def
  explicitPattern3_def standalonePattern_def alphanumPattern_def codeContextPattern_def
  letterPattern_def digitPattern_def currencyPattern_def decimalsPattern_def str_def chr_def
  star_def plus_def dashOrSpace_def upperOrDigit_def

lemmas extract_defs = combine_def js_def exec_def test_def truthy_def isLikelyCode_def
  isYearLike_def parseInt10_def digitsValue_def indexOf_def substring_def Let_def
  standaloneLoop.simps alphanumLoop.simps toStringV_def

lemmas dom_defs = plainInput_def CODE_FIELD_SELECTORS_def TEXT_INPUT_SELECTORS_def
  querySelector_def querySelectorAll_def attr_def isVisibleInput_def type_prop_def
  inputTypes_def maxLength_def size_prop_def hasSmallWidth_def isSingleChar_def
  groupByParent_def inSplitRange_def findSplitCodeInputs_def isSmallEmptyInput_def
  first_elem_def

section \<open>Length preference among the standalone candidates\<close>

lemma two_runs_tierA:
  "explicitLoop explicitPatterns (combine [] (js ''12345  12345678'')) = None"
  by (simp add: extract_defs pattern_defs char_defs)

lemma two_runs_candidates:
  "standaloneLoop (combine [] (js ''12345  12345678'')) 0 [] =
     Inr [js ''12345'', js ''12345678'']"
  by (simp add: extract_defs pattern_defs char_defs)

text \<open>
  C1. The claim: with no explicit callout, the surviving candidates are chosen by
  length, 6 digits, else 4, else 8, else the first. The source says the same in its
  comment (prefer 6, then 4, then 8) but its expression ends in \<open>candidates[0]\<close>: for the
  text \<open>12345  12345678\<close> both runs survive, none has 6 or 4 digits, and the 5-digit run
  is returned although an 8-digit survivor exists.
\<close>

theorem preferred_skips_eight_digits:
  "explicitLoop explicitPatterns (combine [] (js ''12345  12345678'')) = None \<and>
   standaloneLoop (combine [] (js ''12345  12345678'')) 0 [] =
     Inr [js ''12345'', js ''12345678''] \<and>
   extractVerificationCode (js ''12345  12345678'') [] = Inr (Some (js ''12345''))"
proof -
  have "extractVerificationCode (js ''12345  12345678'') [] = Inr (Some (js ''12345''))"
    unfolding extractVerificationCode_def Let_def two_runs_tierA two_runs_candidates
    by (simp add: preferred_def js_or_def truthy_def js_def)
  then show ?thesis
    using two_runs_tierA two_runs_candidates by simp
qed

section \<open>Strategy 1 and hidden elements\<close>

text \<open>
  C6. The claim: an element that matches a selector of strategy 1 but is not visible is
  skipped, and a later visible element matching the same selector is still returned.
  \<open>querySelector\<close> hands the loop only the first match of each selector: when that one
  is hidden, the visible input of the same name is never looked at, and on this page
  detection ends with \<open>null\<close>.
\<close>

theorem hidden_first_match_blocks_selector:
  "matches (AttrContainsI ''name'' (js ''otp'')) visibleOtp \<and> isVisibleInput visibleOtp \<and>
   \<not> isVisibleInput hiddenOtp \<and>
   findCodeField hiddenFirstPage initialState = (None, initialState)"
proof -
  have 1: "selectorLoop CODE_FIELD_SELECTORS hiddenFirstPage = None"
    by (simp add: hiddenFirstPage_def hiddenOtp_def visibleOtp_def dom_defs js_def char_defs)
  have 2: "findSplitCodeInputs hiddenFirstPage = None"
    by (simp add: hiddenFirstPage_def hiddenOtp_def visibleOtp_def dom_defs js_def char_defs)
  have 3: "\<not> pageHasCodeContext hiddenFirstPage"
    by (simp add: pageHasCodeContext_def CONTEXT_PATTERNS_def ci_def hiddenFirstPage_def
        extract_defs pattern_defs char_defs)
  have 4: "findCodeField hiddenFirstPage initialState = (None, initialState)"
    by (simp add: findCodeField_def 1 2 3)
  have 5: "matches (AttrContainsI ''name'' (js ''otp'')) visibleOtp"
    by (simp add: visibleOtp_def dom_defs js_def char_defs)
  have 6: "isVisibleInput visibleOtp" "\<not> isVisibleInput hiddenOtp"
    by (simp_all add: hiddenOtp_def visibleOtp_def dom_defs js_def char_defs)
  from 4 5 6 show ?thesis by simp
qed

section \<open>Strategy 3 and the declared maximum length\<close>

text \<open>
  C8. The claim: strategy 3 never returns an input that shows none of the three
  signals (a declared maximum length of at most 8, a declared size of at most 8, a
  rendered width below 300). The script tests \<open>input.maxLength <= 8\<close>, and \<open>maxLength\<close> is
  \<open>-1\<close> for an input that declares no maximum length: the wide input of this page
  declares neither attribute, is 400 pixels wide, and is returned.
\<close>

theorem undeclared_maxlength_passes:
  "maxlengthAttr wideInput = None \<and> sizeAttr wideInput = None \<and> \<not> rectWidth wideInput < 300 \<and>
   selectorLoop CODE_FIELD_SELECTORS widePage = None \<and> findSplitCodeInputs widePage = None \<and>
   findCodeField widePage initialState = (Some wideInput, initialState)"
proof -
  have 1: "selectorLoop CODE_FIELD_SELECTORS widePage = None"
    by (simp add: widePage_def wideInput_def dom_defs js_def char_defs)
  have 2: "findSplitCodeInputs widePage = None"
    by (simp add: widePage_def wideInput_def dom_defs js_def char_defs)
  have 3: "pageHasCodeContext widePage"
    by (simp add: pageHasCodeContext_def CONTEXT_PATTERNS_def ci_def widePage_def
        extract_defs pattern_defs char_defs)
  have 4: "find isSmallEmptyInput (querySelectorAll widePage TEXT_INPUT_SELECTORS) = Some wideInput"
    by (simp add: widePage_def wideInput_def dom_defs js_def char_defs)
  have 5: "findCodeField widePage initialState = (Some wideInput, initialState)"
    by (simp add: findCodeField_def 1 2 3 4)
  have 6: "maxlengthAttr wideInput = None" "sizeAttr wideInput = None" "\<not> rectWidth wideInput < 300"
    by (simp_all add: wideInput_def plainInput_def)
  from 1 2 5 6 show ?thesis by simp
qed

section \<open>What a detection call writes\<close>

text \<open>
  C9, as stated, fails: a call of \<open>findCodeField\<close> that finds a segmented group stores it
  in the module-level variable \<open>splitInputs\<close>.
\<close>

theorem findCodeField_writes_splitInputs:
  "findCodeField splitPage initialState =
     (Some (digitBox 1), initialState\<lparr>splitInputs := Some (map digitBox [1, 2, 3, 4])\<rparr>) \<and>
   snd (findCodeField splitPage initialState) \<noteq> initialState"
proof -
  have 1: "selectorLoop CODE_FIELD_SELECTORS splitPage = None"
    by (simp add: splitPage_def digitBox_def dom_defs js_def char_defs)
  have 2: "findSplitCodeInputs splitPage = Some (map digitBox [1, 2, 3, 4])"
    by (simp add: splitPage_def digitBox_def dom_defs js_def char_defs)
  have 3: "findCodeField splitPage initialState =
     (Some (digitBox 1), initialState\<lparr>splitInputs := Some (map digitBox [1, 2, 3, 4])\<rparr>)"
    by (simp add: findCodeField_def 1 2 first_elem_def)
  show ?thesis unfolding 3 by (simp add: initialState_def)
qed

text \<open>
  C9, amended. The extractor is a function of its two strings: codeExtractor.js declares
  no module-level variable, and the \<open>lastIndex\<close> of its patterns belongs to objects made
  in the call. A call of \<open>findCodeField\<close> never writes \<open>detectedField\<close> or
  \<open>hasNotifiedBackground\<close>; it writes \<open>splitInputs\<close> exactly when strategy 1 finds nothing
  and strategy 2 finds a group, and then stores that group; every other call leaves the
  module state as it was. The field returned does not depend on the module state.
\<close>

theorem findCodeField_frame:
  "snd (findCodeField pg st) =
     (if selectorLoop CODE_FIELD_SELECTORS pg = None \<and> findSplitCodeInputs pg \<noteq> None
      then st\<lparr>splitInputs := findSplitCodeInputs pg\<rparr> else st) \<and>
   detectedField (snd (findCodeField pg st)) = detectedField st \<and>
   hasNotifiedBackground (snd (findCodeField pg st)) = hasNotifiedBackground st \<and>
   fst (findCodeField pg st) = fst (findCodeField pg st')"
  by (auto simp: findCodeField_def split: option.splits)

section \<open>Matches consume input and set their group\<close>

lemma rep_states_drop:
  assumes "(cap', p', cs') \<in> set (rep_states ic as lo hi (cap, p, cs))"
  shows "\<exists>k. lo \<le> k \<and> k \<le> length cs \<and> cs' = drop k cs \<and> cap' = cap"
proof -
  define n where "n = length (takeWhile (class_match ic as) (case hi of None \<Rightarrow> cs | Some h \<Rightarrow> take h cs))"
  have n: "n \<le> length cs"
    unfolding n_def
    by (rule order_trans[OF length_takeWhile_le]) (simp split: option.split)
  from assms obtain k where "k \<in> set (rev [lo..<Suc n])" "cs' = drop k cs" "cap' = cap"
    by (auto simp: rep_states_def Let_def n_def)
  with n show ?thesis by auto
qed

lemma rmatch_drop:
  "(cap', p', cs') \<in> set (rmatch ic ml r (cap, p, cs)) \<Longrightarrow>
     \<exists>k. minLen r \<le> k \<and> k \<le> length cs \<and> cs' = drop k cs"
proof (induction r arbitrary: cap p cs cap' p' cs')
  case Eps
  then show ?case by (intro exI[of _ 0]) simp
next
  case (Class as)
  then show ?case by (intro exI[of _ 1]) (auto split: list.splits if_splits)
next
  case (Cat a b)
  from Cat.prems obtain cap1 p1 cs1 where
    1: "(cap1, p1, cs1) \<in> set (rmatch ic ml a (cap, p, cs))" and
    2: "(cap', p', cs') \<in> set (rmatch ic ml b (cap1, p1, cs1))"
    by auto
  from Cat.IH(1)[OF 1] obtain k1 where k1: "minLen a \<le> k1" "k1 \<le> length cs" "cs1 = drop k1 cs" by blast
  from Cat.IH(2)[OF 2] obtain k2 where k2: "minLen b \<le> k2" "k2 \<le> length cs1" "cs' = drop k2 cs1" by blast
  show ?case using k1 k2 by (intro exI[of _ "k1 + k2"]) (auto simp: add.commute)
next
  case (Alt a b)
  from Alt.prems consider "(cap', p', cs') \<in> set (rmatch ic ml a (cap, p, cs))"
    | "(cap', p', cs') \<in> set (rmatch ic ml b (cap, p, cs))" by auto
  then show ?case
  proof cases
    case 1
    from Alt.IH(1)[OF 1] show ?thesis by (auto intro: min.coboundedI1)
  next
    case 2
    from Alt.IH(2)[OF 2] show ?thesis by (auto intro: min.coboundedI2)
  qed
next
  case (Opt a)
  from Opt.prems consider "(cap', p', cs') \<in> set (rmatch ic ml a (cap, p, cs))"
    | "cs' = cs" by auto
  then show ?case
  proof cases
    case 1
    from Opt.IH[OF 1] show ?thesis by auto
  next
    case 2
    then show ?thesis by (intro exI[of _ 0]) simp
  qed
next
  case (Rep as lo hi)
  then show ?case using rep_states_drop[of cap' p' cs' ic as lo hi cap p cs] by auto
next
  case (Group a)
  from Group.prems obtain capx where "(capx, p', cs') \<in> set (rmatch ic ml a (cap, p, cs))"
    by auto
  from Group.IH[OF this] show ?case by simp
next
  case WordB
  then show ?case by (intro exI[of _ 0]) (auto split: if_splits)
next
  case Bol
  then show ?case by (intro exI[of _ 0]) (auto split: if_splits)
next
  case Eol
  then show ?case by (intro exI[of _ 0]) (auto split: if_splits)
qed

lemma rmatch_keeps_truthy:
  "(cap', p', cs') \<in> set (rmatch ic ml r (cap, p, cs)) \<Longrightarrow> goodGroups r \<Longrightarrow>
     truthy cap \<Longrightarrow> truthy cap'"
proof (induction r arbitrary: cap p cs cap' p' cs')
  case (Cat a b)
  from Cat.prems obtain cap1 p1 cs1 where
    1: "(cap1, p1, cs1) \<in> set (rmatch ic ml a (cap, p, cs))" and
    2: "(cap', p', cs') \<in> set (rmatch ic ml b (cap1, p1, cs1))"
    by auto
  from Cat.IH(1)[OF 1] Cat.prems have "truthy cap1" by simp
  from Cat.IH(2)[OF 2] this Cat.prems show ?case by simp
next
  case (Rep as lo hi)
  then show ?case using rep_states_drop[of cap' p' cs' ic as lo hi cap p cs] by auto
next
  case (Group a)
  from Group.prems obtain capx where x: "(capx, p', cs') \<in> set (rmatch ic ml a (cap, p, cs))"
    and c: "cap' = Some (take (length cs - length cs') cs)"
    by auto
  from rmatch_drop[OF x] obtain k where "minLen a \<le> k" "k \<le> length cs" "cs' = drop k cs" by blast
  with Group.prems c show ?case by (auto simp: truthy_def)
qed (auto split: list.splits if_splits)

lemma rmatch_sets_truthy:
  "(cap', p', cs') \<in> set (rmatch ic ml r (cap, p, cs)) \<Longrightarrow> goodGroups r \<Longrightarrow>
     setsGroup r \<Longrightarrow> truthy cap'"
proof (induction r arbitrary: cap p cs cap' p' cs')
  case (Cat a b)
  from Cat.prems obtain cap1 p1 cs1 where
    1: "(cap1, p1, cs1) \<in> set (rmatch ic ml a (cap, p, cs))" and
    2: "(cap', p', cs') \<in> set (rmatch ic ml b (cap1, p1, cs1))"
    by auto
  show ?case
  proof (cases "setsGroup b")
    case True
    from Cat.IH(2)[OF 2] True Cat.prems show ?thesis by simp
  next
    case False
    with Cat.prems have "setsGroup a" by simp
    from Cat.IH(1)[OF 1] this Cat.prems have "truthy cap1" by simp
    from rmatch_keeps_truthy[OF 2] this Cat.prems show ?thesis by simp
  qed
next
  case (Group a)
  from Group.prems obtain capx where x: "(capx, p', cs') \<in> set (rmatch ic ml a (cap, p, cs))"
    and c: "cap' = Some (take (length cs - length cs') cs)"
    by auto
  from rmatch_drop[OF x] obtain k where "minLen a \<le> k" "k \<le> length cs" "cs' = drop k cs" by blast
  with Group.prems c show ?case by (auto simp: truthy_def)
qed auto

lemma search_bounds:
  "search ic ml r i p cs = Some m \<Longrightarrow>
     i \<le> index m \<and> index m + minLen r \<le> endIndex m \<and> endIndex m \<le> i + length cs"
proof (induction cs arbitrary: i p)
  case Nil
  then obtain cap p' cs' rest where
    r: "rmatch ic ml r (None, p, []) = (cap, p', cs') # rest" and
    m: "m = \<lparr>index = i, endIndex = i, group1 = cap\<rparr>"
    by (auto split: list.splits)
  from r have "(cap, p', cs') \<in> set (rmatch ic ml r (None, p, []))" by simp
  from rmatch_drop[OF this] m show ?case by auto
next
  case (Cons c cs)
  show ?case
  proof (cases "rmatch ic ml r (None, p, c # cs)")
    case Nil
    with Cons.prems have "search ic ml r (Suc i) (Some c) cs = Some m" by simp
    from Cons.IH[OF this] show ?thesis by simp
  next
    case (Cons st rest)
    obtain cap p' cs' where st: "st = (cap, p', cs')" by (cases st)
    with Cons Cons.prems have
      m: "m = \<lparr>index = i, endIndex = i + (Suc (length cs) - length cs'), group1 = cap\<rparr>"
      by simp
    from Cons st have "(cap, p', cs') \<in> set (rmatch ic ml r (None, p, c # cs))" by simp
    from rmatch_drop[OF this] m show ?thesis by auto
  qed
qed

lemma search_truthy:
  "search ic ml r i p cs = Some m \<Longrightarrow> goodGroups r \<Longrightarrow> setsGroup r \<Longrightarrow> truthy (group1 m)"
proof (induction cs arbitrary: i p)
  case Nil
  then obtain cap p' cs' rest where
    r: "rmatch ic ml r (None, p, []) = (cap, p', cs') # rest" and
    m: "m = \<lparr>index = i, endIndex = i, group1 = cap\<rparr>"
    by (auto split: list.splits)
  from r have "(cap, p', cs') \<in> set (rmatch ic ml r (None, p, []))" by simp
  from rmatch_sets_truthy[OF this] Nil.prems m show ?case by simp
next
  case (Cons c cs)
  show ?case
  proof (cases "rmatch ic ml r (None, p, c # cs)")
    case Nil
    with Cons.prems have "search ic ml r (Suc i) (Some c) cs = Some m" by simp
    from Cons.IH[OF this] Cons.prems show ?thesis by simp
  next
    case (Cons st rest)
    obtain cap p' cs' where st: "st = (cap, p', cs')" by (cases st)
    with Cons Cons.prems have
      m: "m = \<lparr>index = i, endIndex = i + (Suc (length cs) - length cs'), group1 = cap\<rparr>"
      by simp
    from Cons st have "(cap, p', cs') \<in> set (rmatch ic ml r (None, p, c # cs))" by simp
    from rmatch_sets_truthy[OF this] Cons.prems m show ?thesis by simp
  qed
qed

lemma exec_global_bounds:
  assumes "global re" and "exec re s lastIndex = (Some m, lastIndex')"
  shows "lastIndex' = endIndex m \<and> lastIndex + minLen (pattern re) \<le> lastIndex' \<and>
         lastIndex' \<le> length s"
proof -
  from assms have le: "lastIndex \<le> length s"
    by (auto simp: exec_def split: if_splits)
  from assms le have
    s: "search (ignoreCase re) (multiline re) (pattern re) lastIndex
          (last_before None s lastIndex) (drop lastIndex s) = Some m"
    and e: "lastIndex' = endIndex m"
    by (auto simp: exec_def split: if_splits option.splits)
  from search_bounds[OF s] e le show ?thesis by auto
qed

lemma exec_truthy:
  assumes "fst (exec re s lastIndex) = Some m" "goodGroups (pattern re)" "setsGroup (pattern re)"
  shows "truthy (group1 m)"
proof -
  from assms(1) obtain i p cs where
    "search (ignoreCase re) (multiline re) (pattern re) i p cs = Some m"
    by (auto simp: exec_def split: if_splits option.splits)
  from search_truthy[OF this assms(2,3)] show ?thesis .
qed

lemma standalone_props:
  "global standalonePattern" "minLen (pattern standalonePattern) = 4"
  "goodGroups (pattern standalonePattern)" "setsGroup (pattern standalonePattern)"
  by (simp_all add: pattern_defs)

lemma alphanum_props:
  "global alphanumPattern" "minLen (pattern alphanumPattern) = 6"
  by (simp_all add: pattern_defs)

lemma standaloneLoop_total: "\<exists>cands. standaloneLoop combined lastIndex candidates = Inr cands"
proof (induction combined lastIndex candidates rule: standaloneLoop.induct)
  case (1 combined lastIndex candidates)
  show ?case
  proof (cases "exec standalonePattern combined lastIndex")
    case (Pair mo lastIndex')
    show ?thesis
    proof (cases mo)
      case None
      with Pair show ?thesis by (subst standaloneLoop.simps) simp
    next
      case (Some m)
      from exec_global_bounds[OF standalone_props(1) Pair[unfolded Some]] standalone_props(2)
      have b: "lastIndex < lastIndex'" "lastIndex' \<le> length combined" by auto
      from Pair Some have "fst (exec standalonePattern combined lastIndex) = Some m" by simp
      from exec_truthy[OF this standalone_props(3,4)] obtain num where
        g: "group1 m = Some num" by (auto simp: truthy_def split: option.splits)
      from b have nb: "\<not> (lastIndex' \<le> lastIndex \<or> length combined < lastIndex')" by auto
      from "1.IH"[OF Pair[symmetric] Some g nb]
      show ?thesis
        using Pair Some g nb by (subst standaloneLoop.simps) simp
    qed
  qed
qed

lemma alphanumLoop_total: "\<exists>r. alphanumLoop combined lastIndex = Inr r"
proof (induction combined lastIndex rule: alphanumLoop.induct)
  case (1 combined lastIndex)
  show ?case
  proof (cases "exec alphanumPattern combined lastIndex")
    case (Pair mo lastIndex')
    show ?thesis
    proof (cases mo)
      case None
      with Pair show ?thesis by (subst alphanumLoop.simps) simp
    next
      case (Some m)
      from exec_global_bounds[OF alphanum_props(1) Pair[unfolded Some]] alphanum_props(2)
      have b: "lastIndex < lastIndex'" "lastIndex' \<le> length combined" by auto
      then have nb: "\<not> (lastIndex' \<le> lastIndex \<or> length combined < lastIndex')" by auto
      show ?thesis
      proof (cases "test letterPattern (toStringV (group1 m)) \<and> test digitPattern (toStringV (group1 m))")
        case True
        with Pair Some show ?thesis by (subst alphanumLoop.simps) simp
      next
        case False
        from "1.IH"[OF Pair[symmetric] Some False nb]
        show ?thesis using Pair Some False nb by (subst alphanumLoop.simps) simp
      qed
    qed
  qed
qed

text \<open>
  C10. For every body text and subject, \<open>extractVerificationCode\<close> returns a code or
  \<open>null\<close>: neither the TypeError of reading an undefined group nor a loop that never
  ends can be reached. (Both loops are total functions of the model; their error
  values are shown unreachable here.)
\<close>

theorem extract_total: "\<exists>r. extractVerificationCode text subject = Inr r"
proof -
  obtain cands where c: "standaloneLoop (combine subject text) 0 [] = Inr cands"
    using standaloneLoop_total by blast
  obtain r where r: "alphanumLoop (combine subject text) 0 = Inr r"
    using alphanumLoop_total by blast
  show ?thesis
    by (simp add: extractVerificationCode_def Let_def c r split: option.splits)
qed

section \<open>The explicit callouts win\<close>

lemma explicit_props:
  "\<forall>p\<in>set explicitPatterns. goodGroups (pattern p) \<and> setsGroup (pattern p)"
  by (simp add: pattern_defs)

lemma explicitLoop_find:
  assumes "\<forall>p\<in>set ps. goodGroups (pattern p) \<and> setsGroup (pattern p)"
  shows "explicitLoop ps c =
    (case find (\<lambda>p. fst (exec p c 0) \<noteq> None) ps of
       None \<Rightarrow> None
     | Some p \<Rightarrow> (case fst (exec p c 0) of None \<Rightarrow> None | Some m \<Rightarrow> group1 m))"
  using assms
proof (induction ps)
  case Nil
  then show ?case by simp
next
  case (Cons p ps)
  show ?case
  proof (cases "fst (exec p c 0)")
    case None
    with Cons show ?thesis by simp
  next
    case (Some m)
    from exec_truthy[OF Some] Cons.prems have "truthy (group1 m)" by simp
    with Some show ?thesis by simp
  qed
qed

lemma tierA_example:
  "explicitLoop explicitPatterns
     (combine [] (js ''Your verification code is: 482913. Meeting scheduled for 2024.'')) =
   Some (js ''482913'')"
  by (simp add: extract_defs pattern_defs char_defs)

text \<open>
  C2. If one of the explicit patterns matches the combined text, then
  \<open>extractVerificationCode\<close> returns group 1 of the match of the first pattern, in the order
  of the list, that matches; the group is a non-empty string. The result is settled by
  the patterns alone, whatever the later strategies would find. For the text of the
  example the result is \<open>482913\<close>.
\<close>

theorem tierA_first_match_wins:
  "(list_ex (\<lambda>p. fst (exec p (combine subject text) 0) \<noteq> None) explicitPatterns \<longrightarrow>
     (\<exists>p m v. find (\<lambda>p. fst (exec p (combine subject text) 0) \<noteq> None) explicitPatterns = Some p \<and>
        fst (exec p (combine subject text) 0) = Some m \<and> group1 m = Some v \<and> v \<noteq> [] \<and>
        extractVerificationCode text subject = Inr (Some v))) \<and>
   extractVerificationCode (js ''Your verification code is: 482913. Meeting scheduled for 2024.'') [] =
     Inr (Some (js ''482913''))"
proof (intro conjI impI)
  let ?c = "combine subject text"
  assume "list_ex (\<lambda>p. fst (exec p ?c 0) \<noteq> None) explicitPatterns"
  then obtain p where f: "find (\<lambda>p. fst (exec p ?c 0) \<noteq> None) explicitPatterns = Some p"
    by (cases "find (\<lambda>p. fst (exec p ?c 0) \<noteq> None) explicitPatterns")
       (auto simp: find_None_iff list_ex_iff)
  then have "fst (exec p ?c 0) \<noteq> None" and pin: "p \<in> set explicitPatterns"
    by (auto simp: find_Some_iff)
  then obtain m where m: "fst (exec p ?c 0) = Some m" by auto
  from exec_truthy[OF m] explicit_props pin have "truthy (group1 m)" by blast
  then obtain v where v: "group1 m = Some v" "v \<noteq> []"
    by (auto simp: truthy_def split: option.splits)
  have "explicitLoop explicitPatterns ?c = Some v"
    unfolding explicitLoop_find[OF explicit_props] f by (simp add: m v)
  then have "extractVerificationCode text subject = Inr (Some v)"
    by (simp add: extractVerificationCode_def Let_def)
  with f m v show "\<exists>p m v. find (\<lambda>p. fst (exec p ?c 0) \<noteq> None) explicitPatterns = Some p \<and>
        fst (exec p ?c 0) = Some m \<and> group1 m = Some v \<and> v \<noteq> [] \<and>
        extractVerificationCode text subject = Inr (Some v)" by blast
next
  show "extractVerificationCode (js ''Your verification code is: 482913. Meeting scheduled for 2024.'') [] =
     Inr (Some (js ''482913''))"
    unfolding extractVerificationCode_def Let_def tierA_example by simp
qed

lemma enter_code_p1: "fst (exec explicitPattern1 (combine [] (js ''Enter code 7391 now'')) 0) = None"
  by (simp add: extract_defs pattern_defs char_defs)

lemma enter_code_p2: "fst (exec explicitPattern2 (combine [] (js ''Enter code 7391 now'')) 0) =
   Some \<lparr>index = 1, endIndex = 16, group1 = Some (js ''7391'')\<rparr>"
  by (simp add: extract_defs pattern_defs char_defs)

text \<open>The theorem at the text \<open>Enter code 7391 now\<close>, where the second pattern is the first to match.\<close>

theorem tierA_first_match_wins_witness:
  "list_ex (\<lambda>p. fst (exec p (combine [] (js ''Enter code 7391 now'')) 0) \<noteq> None) explicitPatterns \<and>
   find (\<lambda>p. fst (exec p (combine [] (js ''Enter code 7391 now'')) 0) \<noteq> None) explicitPatterns =
     Some explicitPattern2 \<and>
   extractVerificationCode (js ''Enter code 7391 now'') [] = Inr (Some (js ''7391''))"
proof -
  have f: "find (\<lambda>p. fst (exec p (combine [] (js ''Enter code 7391 now'')) 0) \<noteq> None) explicitPatterns =
     Some explicitPattern2"
    by (simp add: explicitPatterns_def enter_code_p1 enter_code_p2)
  have l: "list_ex (\<lambda>p. fst (exec p (combine [] (js ''Enter code 7391 now'')) 0) \<noteq> None) explicitPatterns"
    by (simp add: explicitPatterns_def enter_code_p1 enter_code_p2)
  from tierA_first_match_wins[of "[]" "js ''Enter code 7391 now''"] l f
  have "extractVerificationCode (js ''Enter code 7391 now'') [] = Inr (Some (js ''7391''))"
    by (auto simp: enter_code_p2)
  with f l show ?thesis by simp
qed

section \<open>The keyword pattern\<close>

lemma str_Cons: "str (c # w) = Cat (chr c) (str w)" and str_Nil: "str [] = Eps"
  by (simp_all add: str_def)

lemma concat_map_nonempty: "concat (map f xs) \<noteq> [] \<longleftrightarrow> (\<exists>x\<in>set xs. f x \<noteq> [])"
  by (induction xs) auto

lemma rmatch_str_iff:
  "rmatch ic ml (str w) (cap, p, cs) \<noteq> [] \<longleftrightarrow>
     length w \<le> length cs \<and>
     list_all2 (\<lambda>c x. class_match ic [Lit (of_char c)] x) w (take (length w) cs)"
proof (induction w arbitrary: cap p cs)
  case Nil
  then show ?case by (simp add: str_Nil)
next
  case (Cons c w)
  show ?case
  proof (cases cs)
    case Nil
    then show ?thesis by (simp add: str_Cons chr_def)
  next
    case (Cons x xs)
    then show ?thesis
      using Cons.IH[of cap "Some x" xs]
      by (auto simp: str_Cons chr_def concat_map_nonempty)
  qed
qed

lemma lower_lit:
  "isLower c \<Longrightarrow> class_match True [Lit c] x \<longleftrightarrow> toLowerAscii x = c"
  by (auto simp: class_match_def atom_match_def toLowerAscii_def toUpperAscii_def isLower_def
      isUpper_def)

lemma lower_word:
  assumes "\<forall>c\<in>set w. isLower (of_char c)" and "length xs = length w"
  shows "list_all2 (\<lambda>c x. class_match True [Lit (of_char c)] x) w xs \<longleftrightarrow>
         map toLowerAscii xs = js w"
  using assms
proof (induction w arbitrary: xs)
  case Nil
  then show ?case by (simp add: js_def)
next
  case (Cons c w)
  then obtain y ys where xs: "xs = y # ys" by (cases xs) auto
  with Cons show ?case by (auto simp: js_def lower_lit)
qed

lemma search_Some_iff:
  "search ic ml r i p cs \<noteq> None \<longleftrightarrow>
     (\<exists>k\<le>length cs. rmatch ic ml r (None, last_before p cs k, drop k cs) \<noteq> [])"
proof (induction cs arbitrary: i p)
  case Nil
  then show ?case by (auto simp: last_before_def split: list.splits)
next
  case (Cons c cs)
  show ?case
  proof (cases "rmatch ic ml r (None, p, c # cs)")
    case Nil
    have "(\<exists>k\<le>length (c # cs). rmatch ic ml r (None, last_before p (c # cs) k, drop k (c # cs)) \<noteq> []) \<longleftrightarrow>
          (\<exists>k\<le>length cs. rmatch ic ml r (None, last_before (Some c) cs k, drop k cs) \<noteq> [])"
      (is "?L \<longleftrightarrow> ?R")
    proof
      assume ?L
      then obtain k where k: "k \<le> length (c # cs)"
        "rmatch ic ml r (None, last_before p (c # cs) k, drop k (c # cs)) \<noteq> []" by blast
      with Nil have "k \<noteq> 0" by (cases "k = 0") (auto simp: last_before_def)
      then obtain j where j: "k = Suc j" by (cases k) auto
      have "last_before p (c # cs) (Suc j) = last_before (Some c) cs j"
        by (cases j) (simp_all add: last_before_def)
      with k j show ?R by (intro exI[of _ j]) simp
    next
      assume ?R
      then obtain j where j: "j \<le> length cs"
        "rmatch ic ml r (None, last_before (Some c) cs j, drop j cs) \<noteq> []" by blast
      have "last_before p (c # cs) (Suc j) = last_before (Some c) cs j"
        by (cases j) (simp_all add: last_before_def)
      with j show ?L by (intro exI[of _ "Suc j"]) simp
    qed
    with Nil Cons.IH[of "Suc i" "Some c"] show ?thesis by simp
  next
    case (Cons st rest)
    obtain cap p' cs' where "st = (cap, p', cs')" by (cases st)
    with Cons have "search ic ml r i p (c # cs) \<noteq> None" by simp
    moreover from Cons have "rmatch ic ml r (None, last_before p (c # cs) 0, drop 0 (c # cs)) \<noteq> []"
      by (simp add: last_before_def)
    then have "\<exists>k\<le>length (c # cs). rmatch ic ml r (None, last_before p (c # cs) k, drop k (c # cs)) \<noteq> []"
      by blast
    ultimately show ?thesis by simp
  qed
qed

lemma rmatch_alts:
  "rs \<noteq> [] \<Longrightarrow> rmatch ic ml (alts rs) s \<noteq> [] \<longleftrightarrow> (\<exists>r\<in>set rs. rmatch ic ml r s \<noteq> [])"
  by (induction rs rule: alts.induct) auto

lemma codeContext_pattern: "pattern codeContextPattern = alts (map str keywordWords)"
  by (simp add: codeContextPattern_def keywordWords_def)

lemma sublist_iff_take_drop:
  "sublist xs ys \<longleftrightarrow> (\<exists>k. k + length xs \<le> length ys \<and> take (length xs) (drop k ys) = xs)"
proof
  assume "sublist xs ys"
  then obtain ps ss where "ys = ps @ xs @ ss" by (auto simp: sublist_def)
  then show "\<exists>k. k + length xs \<le> length ys \<and> take (length xs) (drop k ys) = xs"
    by (intro exI[of _ "length ps"]) simp
next
  assume "\<exists>k. k + length xs \<le> length ys \<and> take (length xs) (drop k ys) = xs"
  then obtain k where k: "k + length xs \<le> length ys" "take (length xs) (drop k ys) = xs" by blast
  have "ys = take k ys @ take (length xs) (drop k ys) @ drop (length xs) (drop k ys)"
    by (simp only: append_take_drop_id)
  with k show "sublist xs ys" unfolding sublist_def by metis
qed

lemma test_codeContext_iff: "test codeContextPattern s \<longleftrightarrow> spec_containsKeyword s"
proof -
  have w: "\<And>w cap p cs. w \<in> set keywordWords \<Longrightarrow>
      rmatch True False (str w) (cap, p, cs) \<noteq> [] \<longleftrightarrow>
      length w \<le> length cs \<and> map toLowerAscii (take (length w) cs) = js w"
  proof -
    fix w :: string and cap p and cs :: jsstring
    assume "w \<in> set keywordWords"
    then have l: "\<forall>c\<in>set w. isLower (of_char c)"
      by (auto simp: keywordWords_def isLower_def)
    show "rmatch True False (str w) (cap, p, cs) \<noteq> [] \<longleftrightarrow>
      length w \<le> length cs \<and> map toLowerAscii (take (length w) cs) = js w"
      using lower_word[OF l, of "take (length w) cs"]
      by (auto simp: rmatch_str_iff)
  qed
  have "test codeContextPattern s \<longleftrightarrow>
    (\<exists>k\<le>length s. \<exists>w\<in>set keywordWords. rmatch True False (str w) (None, last_before None s k, drop k s) \<noteq> [])"
  proof -
    have g: "\<not> global codeContextPattern" and i: "ignoreCase codeContextPattern = True"
      and m: "multiline codeContextPattern = False"
      by (simp_all add: codeContextPattern_def)
    have ne: "map str keywordWords \<noteq> []" by (simp add: keywordWords_def)
    have "test codeContextPattern s \<longleftrightarrow>
      search (ignoreCase codeContextPattern) (multiline codeContextPattern)
        (pattern codeContextPattern) 0 None s \<noteq> None"
      by (simp add: test_def exec_def g del: not_None_eq)
    then show ?thesis
      unfolding i m codeContext_pattern search_Some_iff rmatch_alts[OF ne] by auto
  qed
  also have "\<dots> \<longleftrightarrow> (\<exists>w\<in>set keywordWords. \<exists>k. k + length (js w) \<le> length (map toLowerAscii s) \<and>
      take (length (js w)) (drop k (map toLowerAscii s)) = js w)"
    apply (auto simp: w js_def take_map drop_map)
     apply (rule_tac x=w in bexI, rule_tac x=k in exI, simp, simp)
    apply (rule_tac x=k in exI, simp, rule_tac x=w in bexI, simp, simp)
    done
  also have "\<dots> \<longleftrightarrow> spec_containsKeyword s"
    by (simp add: spec_containsKeyword_def sublist_iff_take_drop)
  finally show ?thesis .
qed

section \<open>The year filter\<close>

lemma parseInt10_digits:
  assumes "list_all isDigit ds" "ds \<noteq> []"
  shows "parseInt10 ds = Some (digitsValue ds)"
proof -
  from assms obtain d rest where ds: "ds = d # rest" and d: "isDigit d" by (cases ds) auto
  from d have nw: "\<not> isWhiteSpace d" "d \<noteq> 45" "d \<noteq> 43"
    by (auto simp: isDigit_def isWhiteSpace_def isLineTerminator_def)
  from assms(1) have tw: "takeWhile isDigit ds = ds"
    by (simp add: takeWhile_eq_all_conv list_all_iff)
  from ds nw have "dropWhile isWhiteSpace ds = ds" by simp
  with ds nw tw show ?thesis
    by (simp add: parseInt10_def Let_def first_char_def)
qed

lemma isYearLike_digits:
  assumes "length numStr = 4" "list_all isDigit numStr"
  shows "isYearLike numStr \<longleftrightarrow> 1900 \<le> digitsValue numStr \<and> digitsValue numStr \<le> 2099"
proof -
  from assms(1) have "numStr \<noteq> []" by auto
  from parseInt10_digits[OF assms(2) this] assms(1) show ?thesis
    by (simp add: isYearLike_def)
qed

lemma reminder_tierA:
  "explicitLoop explicitPatterns (combine [] (js ''Reminder: event in 2025'')) = None"
  by (simp add: extract_defs pattern_defs char_defs)

lemma reminder_candidates:
  "standaloneLoop (combine [] (js ''Reminder: event in 2025'')) 0 [] = Inr []"
  by (simp add: extract_defs pattern_defs char_defs)

lemma reminder_context:
  "\<not> test codeContextPattern (combine [] (js ''Reminder: event in 2025''))"
  by (simp add: extract_defs pattern_defs char_defs)

lemma reminder_none: "extractVerificationCode (js ''Reminder: event in 2025'') [] = Inr None"
  unfolding extractVerificationCode_def Let_def reminder_tierA reminder_candidates
  using reminder_context by simp

lemma order_tierA:
  "explicitLoop explicitPatterns (combine [] (js ''Your code 2024 confirms the order'')) = None"
  by (simp add: extract_defs pattern_defs char_defs)

lemma order_candidates:
  "standaloneLoop (combine [] (js ''Your code 2024 confirms the order'')) 0 [] = Inr [js ''2024'']"
  by (simp add: extract_defs pattern_defs char_defs)

lemma order_2024: "extractVerificationCode (js ''Your code 2024 confirms the order'') [] = Inr (Some (js ''2024''))"
  unfolding extractVerificationCode_def Let_def order_tierA order_candidates
  by (simp add: preferred_def js_or_def truthy_def js_def)

text \<open>
  C3. A candidate of four digits whose value lies in 1900 to 2099 passes \<open>isLikelyCode\<close>
  exactly when the combined text contains a keyword: without one it is rejected, with
  one it is kept. So \<open>Reminder: event in 2025\<close> yields no code, and
  \<open>Your code 2024 confirms the order\<close> yields \<open>2024\<close>.
\<close>

theorem year_filter:
  "(length numStr = 4 \<and> list_all isDigit numStr \<and>
    1900 \<le> digitsValue numStr \<and> digitsValue numStr \<le> 2099 \<longrightarrow>
      isLikelyCode numStr context = spec_containsKeyword context) \<and>
   extractVerificationCode (js ''Reminder: event in 2025'') [] = Inr None \<and>
   extractVerificationCode (js ''Your code 2024 confirms the order'') [] = Inr (Some (js ''2024''))"
proof (intro conjI impI)
  assume a: "length numStr = 4 \<and> list_all isDigit numStr \<and>
    1900 \<le> digitsValue numStr \<and> digitsValue numStr \<le> 2099"
  then have "isYearLike numStr" by (simp add: isYearLike_digits)
  then show "isLikelyCode numStr context = spec_containsKeyword context"
    by (simp add: isLikelyCode_def test_codeContext_iff)
qed (rule reminder_none, rule order_2024)

text \<open>The theorem at the candidate \<open>2025\<close> of the first example, which has no keyword.\<close>

theorem year_filter_witness:
  "length (js ''2025'') = 4 \<and> list_all isDigit (js ''2025'') \<and>
   1900 \<le> digitsValue (js ''2025'') \<and> digitsValue (js ''2025'') \<le> 2099 \<and>
   \<not> spec_containsKeyword (combine [] (js ''Reminder: event in 2025'')) \<and>
   \<not> isLikelyCode (js ''2025'') (combine [] (js ''Reminder: event in 2025''))"
proof -
  have h: "length (js ''2025'') = 4 \<and> list_all isDigit (js ''2025'') \<and>
   1900 \<le> digitsValue (js ''2025'') \<and> digitsValue (js ''2025'') \<le> 2099"
    by (simp add: js_def isDigit_def digitsValue_def)
  have k: "\<not> spec_containsKeyword (combine [] (js ''Reminder: event in 2025''))"
    using reminder_context by (simp add: test_codeContext_iff)
  from year_filter[of "js ''2025''" "combine [] (js ''Reminder: event in 2025'')"] h k
  show ?thesis by blast
qed

section \<open>Strategy 2: the segmented group\<close>

lemma firsts_snoc: "firsts (xs @ [y]) = (if y \<in> set xs then firsts xs else firsts xs @ [y])"
  by (simp add: firsts_def)

lemma set_firsts: "set (firsts xs) = set xs" and distinct_firsts: "distinct (firsts xs)"
  by (simp_all add: firsts_def)

lemma takeWhile_firsts:
  "p \<in> set xs \<Longrightarrow> set (takeWhile (\<lambda>x. x \<noteq> p) (firsts xs)) = set (takeWhile (\<lambda>x. x \<noteq> p) xs)"
proof (induction xs rule: rev_induct)
  case Nil
  then show ?case by simp
next
  case (snoc y xs)
  show ?case
  proof (cases "p \<in> set xs")
    case True
    then have "p \<in> set (firsts xs)" by (simp add: set_firsts)
    with True snoc.IH show ?thesis
      by (auto simp: firsts_snoc takeWhile_append)
  next
    case False
    with snoc.prems have y: "y = p" by simp
    from False have "\<forall>x\<in>set (firsts xs). x \<noteq> p" by (auto simp: set_firsts)
    with False y show ?thesis
      by (simp add: firsts_snoc takeWhile_append set_firsts)
  qed
qed

lemma foldl_push_filter:
  "foldl (\<lambda>groups input. if P input then f input groups else groups) acc xs =
   foldl (\<lambda>groups input. f input groups) acc (filter P xs)"
  by (induction xs arbitrary: acc) auto

lemma groupsPush_map:
  assumes "distinct ks" and "parent \<notin> set ks \<Longrightarrow> filter (\<lambda>x. parentElement x = parent) Q = []"
    and "parentElement el = parent"
  shows "groupsPush parent el (map (\<lambda>k. (k, filter (\<lambda>x. parentElement x = k) Q)) ks) =
         map (\<lambda>k. (k, filter (\<lambda>x. parentElement x = k) (Q @ [el])))
           (if parent \<in> set ks then ks else ks @ [parent])"
  using assms
proof (induction ks)
  case Nil
  then show ?case by simp
next
  case (Cons k ks)
  show ?case
  proof (cases "k = parent")
    case True
    with Cons.prems have "\<forall>k'\<in>set ks. parentElement el \<noteq> k'" by auto
    with True Cons.prems show ?thesis by auto
  next
    case False
    with Cons show ?thesis by auto
  qed
qed

lemma groups_closed_form:
  "foldl (\<lambda>groups input. groupsPush (parentElement input) input groups) [] Q =
   map (\<lambda>k. (k, filter (\<lambda>x. parentElement x = k) Q)) (firsts (map parentElement Q))"
proof (induction Q rule: rev_induct)
  case Nil
  then show ?case by (simp add: firsts_def)
next
  case (snoc el Q)
  have e: "parentElement el \<notin> set (firsts (map parentElement Q)) \<Longrightarrow>
      filter (\<lambda>x. parentElement x = parentElement el) Q = []"
    by (auto simp: set_firsts filter_empty_conv image_iff)
  have "firsts (map parentElement (Q @ [el])) =
      (if parentElement el \<in> set (firsts (map parentElement Q)) then firsts (map parentElement Q)
       else firsts (map parentElement Q) @ [parentElement el])"
    by (simp add: firsts_snoc set_firsts)
  with snoc.IH groupsPush_map[where ks="firsts (map parentElement Q)" and Q=Q and el=el
      and parent="parentElement el", OF distinct_firsts e refl]
  show ?case by simp
qed

lemma groupByParent_closed_form:
  "groupByParent visible =
   map (\<lambda>k. (k, filter (\<lambda>x. parentElement x = k) (filter isSingleChar visible)))
     (firsts (map parentElement (filter isSingleChar visible)))"
  unfolding groupByParent_def foldl_push_filter groups_closed_form ..

lemma findSplit_closed_form:
  "findSplitCodeInputs pg =
   map_option snd (find (\<lambda>(parent, els). inSplitRange els)
     (map (\<lambda>k. (k, groupOf pg k)) (firsts (map parentElement (singleCharInputs pg)))))"
  by (simp add: findSplitCodeInputs_def Let_def groupByParent_closed_form singleCharInputs_def
      groupOf_def)

lemma find_Some_split:
  "find P xs = Some x \<Longrightarrow> \<exists>ys zs. xs = ys @ x # zs \<and> P x \<and> (\<forall>y\<in>set ys. \<not> P y)"
proof (induction xs)
  case Nil
  then show ?case by simp
next
  case (Cons a xs)
  show ?case
  proof (cases "P a")
    case True
    with Cons.prems show ?thesis by (intro exI[of _ "[]"] exI[of _ xs]) auto
  next
    case False
    with Cons obtain ys zs where "xs = ys @ x # zs" "P x" "\<forall>y\<in>set ys. \<not> P y" by auto
    with False show ?thesis by (intro exI[of _ "a # ys"] exI[of _ zs]) auto
  qed
qed

lemma findSplit_Some:
  assumes "findSplitCodeInputs pg = Some g"
  shows "\<exists>parent. g = groupOf pg parent \<and> inSplitRange g \<and>
     (\<forall>el\<in>set (takeWhile (\<lambda>el. parentElement el \<noteq> parent) (singleCharInputs pg)).
        \<not> inSplitRange (groupOf pg (parentElement el)))"
proof -
  let ?ks = "firsts (map parentElement (singleCharInputs pg))"
  let ?F = "\<lambda>k. (k, groupOf pg k)"
  from assms obtain parent where
    f: "find (\<lambda>(parent, els). inSplitRange els) (map ?F ?ks) = Some (parent, g)"
    by (auto simp: findSplit_closed_form)
  from find_Some_split[OF f] obtain ys zs where
    s: "map ?F ?ks = ys @ (parent, g) # zs" and r: "inSplitRange g"
    and n: "\<forall>y\<in>set ys. \<not> (case y of (parent, els) \<Rightarrow> inSplitRange els)"
    by auto
  from s obtain ks1 ks2 where
    ks: "?ks = ks1 @ parent # ks2" and ys: "ys = map ?F ks1" and g: "g = groupOf pg parent"
    by (auto simp: map_eq_append_conv map_eq_Cons_conv)
  from ks distinct_firsts[of "map parentElement (singleCharInputs pg)"]
  have d: "parent \<notin> set ks1" by auto
  then have tw: "takeWhile (\<lambda>x. x \<noteq> parent) ?ks = ks1"
    unfolding ks by (simp add: takeWhile_append)
  from ks have pin: "parent \<in> set (map parentElement (singleCharInputs pg))"
    using set_firsts[of "map parentElement (singleCharInputs pg)"] by auto
  have "\<forall>el\<in>set (takeWhile (\<lambda>el. parentElement el \<noteq> parent) (singleCharInputs pg)).
        \<not> inSplitRange (groupOf pg (parentElement el))"
  proof
    fix el
    assume "el \<in> set (takeWhile (\<lambda>el. parentElement el \<noteq> parent) (singleCharInputs pg))"
    then have "parentElement el \<in> set (takeWhile (\<lambda>x. x \<noteq> parent) (map parentElement (singleCharInputs pg)))"
      by (auto simp: takeWhile_map comp_def)
    with takeWhile_firsts[OF pin] tw have "parentElement el \<in> set ks1" by simp
    with n ys show "\<not> inSplitRange (groupOf pg (parentElement el))" by auto
  qed
  with g r show ?thesis by blast
qed

lemma findSplit_None:
  assumes "findSplitCodeInputs pg = None" "el \<in> set (singleCharInputs pg)"
  shows "\<not> inSplitRange (groupOf pg (parentElement el))"
proof -
  from assms(2) have "parentElement el \<in> set (firsts (map parentElement (singleCharInputs pg)))"
    by (simp add: set_firsts)
  with assms(1) show ?thesis
    by (auto simp: findSplit_closed_form find_None_iff)
qed

text \<open>
  C7. A group that \<open>findSplitCodeInputs\<close> returns has 4 to 8 members; they are visible
  one-character inputs, all the ones of one parent, in document order; no parent whose
  first one-character input comes earlier has a group of 4 to 8; a parent with exactly 3
  or exactly 9 such inputs is never the one returned. When strategy 1 finds nothing, this
  group is what \<open>findCodeField\<close> stores in \<open>splitInputs\<close>, returning its first member. When
  nothing is returned, no parent has a group of 4 to 8.
\<close>

theorem segmented_group:
  "(case findSplitCodeInputs pg of
      None \<Rightarrow> \<forall>el\<in>set (singleCharInputs pg). \<not> inSplitRange (groupOf pg (parentElement el))
    | Some g \<Rightarrow>
        4 \<le> length g \<and> length g \<le> 8 \<and> subseq g (inputs pg) \<and>
        (\<forall>el\<in>set g. isVisibleInput el \<and> isSingleChar el) \<and>
        (\<exists>parent. g = groupOf pg parent \<and> (\<forall>el\<in>set g. parentElement el = parent) \<and>
           (\<forall>el\<in>set (takeWhile (\<lambda>el. parentElement el \<noteq> parent) (singleCharInputs pg)).
              \<not> inSplitRange (groupOf pg (parentElement el)))) \<and>
        (\<forall>parent. length (groupOf pg parent) = 3 \<or> length (groupOf pg parent) = 9 \<longrightarrow>
           g \<noteq> groupOf pg parent) \<and>
        (selectorLoop CODE_FIELD_SELECTORS pg = None \<longrightarrow>
           first_elem g \<noteq> None \<and>
           findCodeField pg st = (first_elem g, st\<lparr>splitInputs := Some g\<rparr>)))"
proof (cases "findSplitCodeInputs pg")
  case None
  with findSplit_None[OF None] show ?thesis by simp
next
  case (Some g)
  from findSplit_Some[OF Some] obtain parent where
    g: "g = groupOf pg parent" and r: "inSplitRange g" and
    f: "\<forall>el\<in>set (takeWhile (\<lambda>el. parentElement el \<noteq> parent) (singleCharInputs pg)).
        \<not> inSplitRange (groupOf pg (parentElement el))"
    by blast
  from r have len: "4 \<le> length g" "length g \<le> 8" by (simp_all add: inSplitRange_def)
  have sub: "subseq g (inputs pg)"
    by (simp add: g groupOf_def singleCharInputs_def querySelectorAll_def)
  have vis: "\<forall>el\<in>set g. isVisibleInput el \<and> isSingleChar el"
    by (simp add: g groupOf_def singleCharInputs_def)
  have par: "\<forall>el\<in>set g. parentElement el = parent"
    by (simp add: g groupOf_def)
  have b: "\<forall>parent. length (groupOf pg parent) = 3 \<or> length (groupOf pg parent) = 9 \<longrightarrow>
           g \<noteq> groupOf pg parent"
    using len by auto
  from len obtain el rest where "g = el # rest" by (cases g) auto
  then have fe: "first_elem g \<noteq> None" by (simp add: first_elem_def)
  have c: "selectorLoop CODE_FIELD_SELECTORS pg = None \<longrightarrow>
           findCodeField pg st = (first_elem g, st\<lparr>splitInputs := Some g\<rparr>)"
    by (simp add: findCodeField_def Some)
  from g f par have "\<exists>parent. g = groupOf pg parent \<and> (\<forall>el\<in>set g. parentElement el = parent) \<and>
           (\<forall>el\<in>set (takeWhile (\<lambda>el. parentElement el \<noteq> parent) (singleCharInputs pg)).
              \<not> inSplitRange (groupOf pg (parentElement el)))" by blast
  with len sub vis b fe c show ?thesis by (simp add: Some)
qed

lemma groupsPage_split:
  "findSplitCodeInputs groupsPage = Some (map (boxIn 202) [13, 14, 15, 16, 17, 18])"
  by (simp add: groupsPage_def boxIn_def digitBox_def dom_defs js_def char_defs)

lemma groupsPage_tier1: "selectorLoop CODE_FIELD_SELECTORS groupsPage = None"
  by (simp add: groupsPage_def boxIn_def digitBox_def dom_defs js_def char_defs)

text \<open>The theorem on a page with groups of 3, 9, 6 and 4 boxes: the group of 6 is selected.\<close>

theorem segmented_group_witness:
  "findSplitCodeInputs groupsPage = Some (map (boxIn 202) [13, 14, 15, 16, 17, 18]) \<and>
   length (groupOf groupsPage (Some 200)) = 3 \<and> length (groupOf groupsPage (Some 201)) = 9 \<and>
   length (groupOf groupsPage (Some 203)) = 4 \<and>
   selectorLoop CODE_FIELD_SELECTORS groupsPage = None \<and>
   subseq (map (boxIn 202) [13, 14, 15, 16, 17, 18]) (inputs groupsPage) \<and>
   findCodeField groupsPage initialState =
     (Some (boxIn 202 13), initialState\<lparr>splitInputs := Some (map (boxIn 202) [13, 14, 15, 16, 17, 18])\<rparr>)"
proof -
  have l: "length (groupOf groupsPage (Some 200)) = 3" "length (groupOf groupsPage (Some 201)) = 9"
    "length (groupOf groupsPage (Some 203)) = 4"
    by (simp_all add: groupOf_def singleCharInputs_def groupsPage_def boxIn_def digitBox_def
        dom_defs js_def char_defs)
  note t = segmented_group[where pg=groupsPage and st=initialState,
      unfolded groupsPage_split option.case]
  from t have 1: "subseq (map (boxIn 202) [13, 14, 15, 16, 17, 18]) (inputs groupsPage)"
    by blast
  from t groupsPage_tier1 have 2: "findCodeField groupsPage initialState =
     (first_elem (map (boxIn 202) [13, 14, 15, 16, 17, 18]),
      initialState\<lparr>splitInputs := Some (map (boxIn 202) [13, 14, 15, 16, 17, 18])\<rparr>)"
    by blast
  from 1 2 l groupsPage_split groupsPage_tier1 show ?thesis by (simp add: first_elem_def)

qed

section \<open>Strategy 3 of the extractor: alphanumeric tokens\<close>




































section \<open>The amount filter and the offset of a candidate\<close>

lemma usd_tierA:
  "explicitLoop explicitPatterns (combine [] (js ''id:123456 total USD 123456'')) = None"
  by (simp add: extract_defs pattern_defs char_defs)

lemma usd_match:
  "fst (exec standalonePattern (combine [] (js ''id:123456 total USD 123456'')) 0) =
     Some \<lparr>index = 20, endIndex = 27, group1 = Some (js ''123456'')\<rparr>"
  by (simp add: extract_defs pattern_defs char_defs)

lemma usd_window:
  "substring (combine [] (js ''id:123456 total USD 123456'')) (21 - 5) 21 = js '' USD '' \<and>
   test currencyPattern (js '' USD '')"
  by (simp add: extract_defs pattern_defs char_defs)

lemma usd_indexOf:
  "indexOf (combine [] (js ''id:123456 total USD 123456'')) (js ''123456'') = 4"
  by (simp add: extract_defs)

lemma usd_likely:
  "isLikelyCode (js ''123456'') (combine [] (js ''id:123456 total USD 123456''))"
  by (simp add: extract_defs pattern_defs char_defs)

lemma usd_candidates:
  "standaloneLoop (combine [] (js ''id:123456 total USD 123456'')) 0 [] = Inr [js ''123456'']"
  by (simp add: extract_defs pattern_defs char_defs)

lemma usd_result:
  "extractVerificationCode (js ''id:123456 total USD 123456'') [] = Inr (Some (js ''123456''))"
  unfolding extractVerificationCode_def Let_def usd_tierA usd_candidates
  by (simp add: preferred_def js_or_def truthy_def js_def)

lemma amount_tierA:
  "explicitLoop explicitPatterns (combine (js ''5000.00'') []) = None"
  by (simp add: extract_defs pattern_defs char_defs)

lemma amount_match:
  "fst (exec standalonePattern (combine (js ''5000.00'') []) 0) =
     Some \<lparr>index = 0, endIndex = 5, group1 = Some (js ''5000'')\<rparr>"
  by (simp add: extract_defs pattern_defs char_defs)

lemma amount_window:
  "substring (combine (js ''5000.00'') []) (0 + 4) (0 + 4 + 5) = js ''.00 '' \<and>
   test decimalsPattern (js ''.00 '')"
  by (simp add: extract_defs pattern_defs char_defs)

lemma amount_likely:
  "indexOf (combine (js ''5000.00'') []) (js ''5000'') = 0 \<and>
   isLikelyCode (js ''5000'') (combine (js ''5000.00'') [])"
  by (simp add: extract_defs pattern_defs char_defs)

lemma amount_candidates:
  "standaloneLoop (combine (js ''5000.00'') []) 0 [] = Inr [js ''5000'']"
  by (simp add: extract_defs pattern_defs char_defs)

lemma amount_result:
  "extractVerificationCode [] (js ''5000.00'') = Inr (Some (js ''5000''))"
  unfolding extractVerificationCode_def Let_def amount_tierA amount_candidates
  by (simp add: preferred_def js_or_def truthy_def js_def)

text \<open>
  C4. The claim: a candidate with a currency sign or code within the 5 characters
  before it, or two decimals within the 5 characters after it, is rejected, at the
  offset of each occurrence. \<open>isLikelyCode\<close> is given the digits only and looks them up
  with \<open>indexOf\<close>, which finds their first occurrence anywhere in the text, and it skips
  the test when that offset is \<open>0\<close>. In \<open>id:123456 total USD 123456\<close> the candidate stands
  at offset 21, after \<open>USD\<close>, but the window is taken at offset 4 and the candidate is
  kept; with the subject \<open>5000.00\<close> the candidate stands at offset 0, before \<open>.00\<close>, and
  is kept.
\<close>

theorem currency_filter_misses_occurrence:
  "fst (exec standalonePattern (combine [] (js ''id:123456 total USD 123456'')) 0) =
     Some \<lparr>index = 20, endIndex = 27, group1 = Some (js ''123456'')\<rparr> \<and>
   substring (combine [] (js ''id:123456 total USD 123456'')) (21 - 5) 21 = js '' USD '' \<and>
   test currencyPattern (js '' USD '') \<and>
   indexOf (combine [] (js ''id:123456 total USD 123456'')) (js ''123456'') = 4 \<and>
   standaloneLoop (combine [] (js ''id:123456 total USD 123456'')) 0 [] = Inr [js ''123456''] \<and>
   extractVerificationCode (js ''id:123456 total USD 123456'') [] = Inr (Some (js ''123456'')) \<and>
   fst (exec standalonePattern (combine (js ''5000.00'') []) 0) =
     Some \<lparr>index = 0, endIndex = 5, group1 = Some (js ''5000'')\<rparr> \<and>
   substring (combine (js ''5000.00'') []) (0 + 4) (0 + 4 + 5) = js ''.00 '' \<and>
   test decimalsPattern (js ''.00 '') \<and>
   indexOf (combine (js ''5000.00'') []) (js ''5000'') = 0 \<and>
   standaloneLoop (combine (js ''5000.00'') []) 0 [] = Inr [js ''5000''] \<and>
   extractVerificationCode [] (js ''5000.00'') = Inr (Some (js ''5000''))"
  using usd_match usd_window usd_indexOf usd_candidates usd_result amount_match amount_window
    amount_likely amount_candidates amount_result
  by (intro conjI) blast+

end
